theory Spec2Isabelle
  imports Main
begin

section \<open>Strings and the regular expressions of the checks\<close>

text \<open>
  Source text is a \<^typ>\<open>string\<close>; a character is identified with its code point
  (below 256).  \<open>is_space\<close> is the class \<open>\s\<close> of Python 3's \<open>re\<close> on \<open>str\<close> patterns.
\<close>

definition is_space :: "char \<Rightarrow> bool" where
  "is_space c = (of_char c \<in> {9, 10, 11, 12, 13, 28, 29, 30, 31, 32, 133, 160 :: nat})"

definition starts_with :: "string \<Rightarrow> string \<Rightarrow> bool" where
  "starts_with p s = (take (length p) s = p)"

text \<open>\<open>.*coding[:=]\<close> matched from the head of the string: \<open>.\<close> is any character but a newline.\<close>

fun match_coding :: "string \<Rightarrow> bool" where
  "match_coding [] = False"
| "match_coding (c # cs) =
     (starts_with ''coding:'' (c # cs) \<or> starts_with ''coding='' (c # cs) \<or>
      (c \<noteq> CHR 0x0A \<and> match_coding cs))"

text \<open>\<open>re.search(r'^\s*#.*coding[:=]', physical_line)\<close>, as a truth value.\<close>

definition search_coding :: "string \<Rightarrow> bool" where
  "search_coding physical_line =
     (case dropWhile is_space physical_line of
        [] \<Rightarrow> False
      | c # cs \<Rightarrow> c = CHR ''#'' \<and> match_coding cs)"

section \<open>The physical-line check\<close>

definition check_non_default_encoding :: "string \<Rightarrow> int \<Rightarrow> (int \<times> string) option" where
  "check_non_default_encoding physical_line line_number =
     (if line_number \<le> 2 \<and> search_coding physical_line
      then Some (0, ''A303 non-default file encoding'')
      else None)"

section \<open>Syntax trees\<close>

text \<open>
  The values a constant field of a tree holds and an expression may fold to: integers,
  strings, booleans, \<open>None\<close>, a built-in object known by its name, and an instance of
  \<open>object\<close> known by its identity.
\<close>

datatype pyval =
    PInt int
  | PStr string
  | PBool bool
  | PNone
  | PBuiltin string
  | PObj nat

text \<open>
  A node of Python's \<open>ast\<close> module: its class name, the position \<open>lineno\<close>,
  \<open>col_offset\<close>, and its fields in the order of \<open>_fields\<close>.  A field holds a node, a
  list, or a plain value (an identifier is a \<open>PStr\<close>, an absent optional child is \<open>PNone\<close>).
  \<open>isinstance(node, ast.C)\<close> is the test \<open>cls node = ''C''\<close>.
\<close>

datatype node = Node (cls: string) (lineno: int) (col_offset: int) (node_fields: "(string \<times> field) list")
and field = FNode node | FList "field list" | FVal pyval

text \<open>
  Reading an attribute.  The grammar of \<open>ast\<close> gives every node of a class the fields of
  that class, so the reads are total lookups; a field the node does not have reads as \<open>None\<close>.
\<close>

definition get_field :: "node \<Rightarrow> string \<Rightarrow> field" where
  "get_field n name = (case map_of (node_fields n) name of Some f \<Rightarrow> f | None \<Rightarrow> FVal PNone)"

definition get_list :: "node \<Rightarrow> string \<Rightarrow> field list" where
  "get_list n name = (case get_field n name of FList xs \<Rightarrow> xs | _ \<Rightarrow> [])"

fun nodes_of :: "field list \<Rightarrow> node list" where
  "nodes_of [] = []"
| "nodes_of (FNode n # fs) = n # nodes_of fs"
| "nodes_of (_ # fs) = nodes_of fs"

definition get_nodes :: "node \<Rightarrow> string \<Rightarrow> node list" where
  "get_nodes n name = nodes_of (get_list n name)"

definition get_str :: "node \<Rightarrow> string \<Rightarrow> string" where
  "get_str n name = (case get_field n name of FVal (PStr s) \<Rightarrow> s | _ \<Rightarrow> [])"

definition is_instance :: "node \<Rightarrow> string list \<Rightarrow> bool" where
  "is_instance n classes = (cls n \<in> set classes)"

definition field_instance :: "field \<Rightarrow> string list \<Rightarrow> bool" where
  "field_instance f classes = (case f of FNode n \<Rightarrow> is_instance n classes | _ \<Rightarrow> False)"

text \<open>\<open>ast.iter_child_nodes\<close>: the nodes \<open>generic_visit\<close> visits, in field order.\<close>

fun field_children :: "field \<Rightarrow> node list" where
  "field_children (FNode n) = [n]"
| "field_children (FList items) = nodes_of items"
| "field_children (FVal v) = []"

definition child_nodes :: "node \<Rightarrow> node list" where
  "child_nodes n = concat (map (\<lambda>(name, f). field_children f) (node_fields n))"

definition LEAVE_BLOCK :: "string list" where
  "LEAVE_BLOCK = [''Return'', ''Raise'', ''Continue'', ''Break'']"

definition lower_char :: "char \<Rightarrow> char" where
  "lower_char c =
     (case map_of (zip ''ABCDEFGHIJKLMNOPQRSTUVWXYZ'' ''abcdefghijklmnopqrstuvwxyz'') c of
        Some d \<Rightarrow> d
      | None \<Rightarrow> c)"

definition lower :: "string \<Rightarrow> string" where
  "lower s = map lower_char s"

definition get_statement :: "node \<Rightarrow> string" where
  "get_statement n = lower (cls n)"

section \<open>The block analysis\<close>

type_synonym finding = "node \<times> string"

text \<open>The local variables of \<open>_visit_block\<close>, with \<open>self.errors\<close>.\<close>

record block_state =
  pass_node :: "node option"
  has_non_pass :: bool
  leave_node :: "node option"
  dead_code :: bool
  errs :: "finding list"

text \<open>
  Whether the tail of the loop body reaches \<open>self.errors.append((node, 'A203 ...'))\<close>, that
  is, none of its three \<open>continue\<close> statements is taken.
\<close>

definition unused_expression :: "bool \<Rightarrow> bool \<Rightarrow> nat \<Rightarrow> node \<Rightarrow> bool" where
  "unused_expression docstring can_have_unused_expr i n =
     (if can_have_unused_expr \<or> \<not> is_instance n [''Expr''] then False
      else if docstring \<and> i = 0 \<and> field_instance (get_field n ''value'') [''Str''] then False
      else if field_instance (get_field n ''value'') [''Call'', ''Yield''] then False
      else True)"

text \<open>One iteration of \<open>for i, node in enumerate(nodes)\<close>.\<close>

definition block_step :: "bool \<Rightarrow> bool \<Rightarrow> nat \<Rightarrow> node \<Rightarrow> block_state \<Rightarrow> block_state" where
  "block_step docstring can_have_unused_expr i n st =
     (let st1 = (if is_instance n [''Pass''] then st\<lparr>pass_node := Some n\<rparr>
                 else st\<lparr>has_non_pass := True\<rparr>);
          st2 = (case leave_node st1 of
                   Some l \<Rightarrow>
                     if \<not> dead_code st1
                     then st1\<lparr>dead_code := True,
                              errs := errs st1 @ [(n, ''A202 dead code after '' @ get_statement l)]\<rparr>
                     else st1
                 | None \<Rightarrow> st1);
          st3 = (if is_instance n LEAVE_BLOCK then st2\<lparr>leave_node := Some n\<rparr> else st2)
      in if unused_expression docstring can_have_unused_expr i n
         then st3\<lparr>errs := errs st3 @ [(n, ''A203 unused expression'')]\<rparr>
         else st3)"

fun block_loop :: "bool \<Rightarrow> bool \<Rightarrow> nat \<Rightarrow> node list \<Rightarrow> block_state \<Rightarrow> block_state" where
  "block_loop docstring can_have_unused_expr i [] st = st"
| "block_loop docstring can_have_unused_expr i (n # rest) st =
     block_loop docstring can_have_unused_expr (Suc i) rest
       (block_step docstring can_have_unused_expr i n st)"

text \<open>
  \<open>_visit_block(nodes, block_required, nodes_required, docstring, can_have_unused_expr)\<close>
  as a function of \<open>self.errors\<close>, the only state it touches.
\<close>

definition visit_block ::
  "node list \<Rightarrow> bool \<Rightarrow> bool \<Rightarrow> bool \<Rightarrow> bool \<Rightarrow> finding list \<Rightarrow> finding list" where
  "visit_block nodes block_required nodes_required docstring can_have_unused_expr errors0 =
     (let st = block_loop docstring can_have_unused_expr 0 nodes
                 \<lparr>pass_node = None, has_non_pass = False, leave_node = None,
                  dead_code = False, errs = errors0\<rparr>
      in case pass_node st of
           None \<Rightarrow> errs st
         | Some p \<Rightarrow>
             (let e1 = (if \<not> nodes_required \<or> length nodes > 1
                        then errs st @ [(p, ''A204 redundant pass statement'')]
                        else errs st)
              in if \<not> block_required \<and> \<not> has_non_pass st
                 then e1 @ [(p, ''A205 empty block'')]
                 else e1))"

text \<open>The code of a finding: the first four characters of its message.\<close>

definition code :: "'a \<times> string \<Rightarrow> string" where
  "code f = take 4 (snd f)"

section \<open>The constant evaluator\<close>

text \<open>
  An exception is an instance of \<open>Exception\<close> (\<open>NameError\<close>, \<open>TypeError\<close>, ...) or of a class
  outside it (\<open>SystemExit\<close>, \<open>KeyboardInterrupt\<close>, \<open>GeneratorExit\<close>); the string is the class
  name.  \<open>except Exception\<close> catches the former only.
\<close>

datatype exc = Exception string | BaseExceptionOnly string

datatype outcome = Returns pyval | Raises exc

text \<open>
  A namespace passed to \<open>eval\<close>: the entries of the mapping other than \<open>__builtins__\<close>, the
  dictionary under \<open>__builtins__\<close>, and whether the mapping is a \<open>defaultdict(object, ...)\<close>,
  which answers a missing key with a new \<open>object()\<close> and keeps it.
\<close>

record namespace =
  items :: "(string \<times> pyval) list"
  builtins :: "(string \<times> pyval) list"
  default_factory :: bool

text \<open>
  \<open>eval(compile(ast.Expression(node), '', 'eval'), namespace)\<close> is Python's, not this
  repository's.  It is a parameter of the model: a function from the node (a field, since a
  dictionary key may be \<open>None\<close>) and the namespace to the outcome of a run that ends, with
  the namespace as the run leaves it.
\<close>

type_synonym interpreter = "field \<Rightarrow> namespace \<Rightarrow> outcome \<times> namespace"

datatype folded = Value pyval | VOLATILE

definition evaluate :: "interpreter \<Rightarrow> field \<Rightarrow> namespace \<Rightarrow> (exc + folded) \<times> namespace" where
  "evaluate ev node ns =
     (case ev node ns of
        (Returns v, ns') \<Rightarrow> (Inr (Value v), ns')
      | (Raises (Exception c), ns') \<Rightarrow> (Inr VOLATILE, ns')
      | (Raises (BaseExceptionOnly c), ns') \<Rightarrow> (Inl (BaseExceptionOnly c), ns'))"

definition const_namespace :: namespace where
  "const_namespace =
     \<lparr>items = [],
      builtins = [(''True'', PBool True), (''False'', PBool False), (''None'', PNone)],
      default_factory = False\<rparr>"

definition is_const :: "interpreter \<Rightarrow> field \<Rightarrow> exc + bool" where
  "is_const ev node =
     (case fst (evaluate ev node const_namespace) of
        Inl e \<Rightarrow> Inl e
      | Inr r \<Rightarrow> Inr (r \<noteq> VOLATILE))"

text \<open>
  \<open>dir(builtins)\<close> of CPython 3.7 with the \<open>site\<close> module loaded, as the host runs it.
\<close>

definition builtins_dir :: "string list" where
  "builtins_dir =
    [''ArithmeticError'', ''AssertionError'', ''AttributeError'', ''BaseException'',
     ''BlockingIOError'', ''BrokenPipeError'', ''BufferError'', ''BytesWarning'',
     ''ChildProcessError'', ''ConnectionAbortedError'', ''ConnectionError'',
     ''ConnectionRefusedError'', ''ConnectionResetError'', ''DeprecationWarning'',
     ''EOFError'', ''Ellipsis'', ''EnvironmentError'', ''Exception'', ''False'',
     ''FileExistsError'', ''FileNotFoundError'', ''FloatingPointError'', ''FutureWarning'',
     ''GeneratorExit'', ''IOError'', ''ImportError'', ''ImportWarning'', ''IndentationError'',
     ''IndexError'', ''InterruptedError'', ''IsADirectoryError'', ''KeyError'',
     ''KeyboardInterrupt'', ''LookupError'', ''MemoryError'', ''ModuleNotFoundError'',
     ''NameError'', ''None'', ''NotADirectoryError'', ''NotImplemented'',
     ''NotImplementedError'', ''OSError'', ''OverflowError'', ''PendingDeprecationWarning'',
     ''PermissionError'', ''ProcessLookupError'', ''RecursionError'', ''ReferenceError'',
     ''ResourceWarning'', ''RuntimeError'', ''RuntimeWarning'', ''StopAsyncIteration'',
     ''StopIteration'', ''SyntaxError'', ''SyntaxWarning'', ''SystemError'', ''SystemExit'',
     ''TabError'', ''TimeoutError'', ''True'', ''TypeError'', ''UnboundLocalError'',
     ''UnicodeDecodeError'', ''UnicodeEncodeError'', ''UnicodeError'',
     ''UnicodeTranslateError'', ''UnicodeWarning'', ''UserWarning'', ''ValueError'',
     ''Warning'', ''ZeroDivisionError'', ''__build_class__'', ''__debug__'', ''__doc__'',
     ''__import__'', ''__loader__'', ''__name__'', ''__package__'', ''__spec__'', ''abs'',
     ''all'', ''any'', ''ascii'', ''bin'', ''bool'', ''breakpoint'', ''bytearray'', ''bytes'',
     ''callable'', ''chr'', ''classmethod'', ''compile'', ''complex'', ''copyright'',
     ''credits'', ''delattr'', ''dict'', ''dir'', ''divmod'', ''enumerate'', ''eval'',
     ''exec'', ''exit'', ''filter'', ''float'', ''format'', ''frozenset'', ''getattr'',
     ''globals'', ''hasattr'', ''hash'', ''help'', ''hex'', ''id'', ''input'', ''int'',
     ''isinstance'', ''issubclass'', ''iter'', ''len'', ''license'', ''list'', ''locals'',
     ''map'', ''max'', ''memoryview'', ''min'', ''next'', ''object'', ''oct'', ''open'',
     ''ord'', ''pow'', ''print'', ''property'', ''quit'', ''range'', ''repr'', ''reversed'',
     ''round'', ''set'', ''setattr'', ''slice'', ''sorted'', ''staticmethod'', ''str'',
     ''sum'', ''super'', ''tuple'', ''type'', ''vars'', ''zip'']"

definition ESSENTIAL_BUILTINS :: "string list" where
  "ESSENTIAL_BUILTINS =
     filter (\<lambda>name. name \<notin> set [''apply'', ''buffer'', ''coerce'', ''intern'', ''file''])
       builtins_dir"

definition builtin_value :: "string \<Rightarrow> pyval" where
  "builtin_value name =
     (if name = ''True'' then PBool True else if name = ''False'' then PBool False
      else if name = ''None'' then PNone else PBuiltin name)"

text \<open>\<open>collections.defaultdict(object, vars(builtins))\<close>.\<close>

definition hash_namespace :: namespace where
  "hash_namespace =
     \<lparr>items = map (\<lambda>name. (name, builtin_value name)) builtins_dir,
      builtins = [],
      default_factory = True\<rparr>"

text \<open>
  \<open>key in keys\<close> on a list: some element is the key or equals it.  On the values of
  \<^typ>\<open>pyval\<close> Python's \<open>==\<close> is equality, with \<open>True == 1\<close> and \<open>False == 0\<close>.
\<close>

fun py_norm :: "pyval \<Rightarrow> pyval" where
  "py_norm (PBool b) = PInt (if b then 1 else 0)"
| "py_norm v = v"

definition py_eq :: "pyval \<Rightarrow> pyval \<Rightarrow> bool" where
  "py_eq a b = (py_norm a = py_norm b)"

definition py_in :: "pyval \<Rightarrow> pyval list \<Rightarrow> bool" where
  "py_in key keys = list_ex (\<lambda>k. py_eq k key) keys"

text \<open>
  The interpreter on the fragment the examples below use: number, string and constant
  literals, names (looked up in the mapping, then in \<open>__builtins__\<close>), and the call
  \<open>exit()\<close> or \<open>quit()\<close> of the \<open>site\<close> built-ins, which raises \<open>SystemExit\<close>.  \<open>None\<close> in place
  of a node makes \<open>compile\<close> raise \<open>TypeError\<close>.  Outside the fragment the definition
  answers with an exception named \<open>Unmodelled\<close>; the general theorems hold for every
  interpreter and no example leaves the fragment.
\<close>

definition load_name :: "string \<Rightarrow> namespace \<Rightarrow> outcome \<times> namespace" where
  "load_name name ns =
     (case map_of (items ns) name of
        Some v \<Rightarrow> (Returns v, ns)
      | None \<Rightarrow>
          if default_factory ns
          then (let v = PObj (length (items ns))
                in (Returns v, ns\<lparr>items := items ns @ [(name, v)]\<rparr>))
          else (case map_of (builtins ns) name of
                  Some v \<Rightarrow> (Returns v, ns)
                | None \<Rightarrow> (Raises (Exception ''NameError''), ns)))"

definition literal_value :: "node \<Rightarrow> string \<Rightarrow> namespace \<Rightarrow> outcome \<times> namespace" where
  "literal_value n name ns =
     (case get_field n name of
        FVal v \<Rightarrow> (Returns v, ns)
      | _ \<Rightarrow> (Raises (Exception ''Unmodelled''), ns))"

definition call_builtin :: "node \<Rightarrow> namespace \<Rightarrow> outcome \<times> namespace" where
  "call_builtin func ns =
     (case load_name (get_str func ''id'') ns of
        (Returns (PBuiltin f), ns') \<Rightarrow>
          if f = ''exit'' \<or> f = ''quit''
          then (Raises (BaseExceptionOnly ''SystemExit''), ns')
          else (Raises (Exception ''Unmodelled''), ns')
      | (Returns (PObj k), ns') \<Rightarrow> (Raises (Exception ''TypeError''), ns')
      | (r, ns') \<Rightarrow> (Raises (Exception ''Unmodelled''), ns'))"

fun py_eval :: interpreter where
  "py_eval (FNode n) ns =
     (if cls n = ''Num'' then literal_value n ''n'' ns
      else if cls n = ''Str'' then literal_value n ''s'' ns
      else if cls n = ''NameConstant'' then literal_value n ''value'' ns
      else if cls n = ''Name'' \<and> get_str n ''id'' \<noteq> ''__builtins__''
      then load_name (get_str n ''id'') ns
      else if cls n = ''Call'' \<and> get_list n ''args'' = [] \<and> get_list n ''keywords'' = []
      then (case get_field n ''func'' of
              FNode func \<Rightarrow>
                if cls func = ''Name'' \<and> get_str func ''id'' \<noteq> ''__builtins__''
                then call_builtin func ns
                else (Raises (Exception ''Unmodelled''), ns)
            | _ \<Rightarrow> (Raises (Exception ''Unmodelled''), ns))
      else (Raises (Exception ''Unmodelled''), ns))"
| "py_eval f ns = (Raises (Exception ''TypeError''), ns)"

section \<open>The tree visitor\<close>

text \<open>
  A scope, and the visitor's state: \<open>self.errors\<close> and \<open>self.scope_stack\<close>.  The stack is a
  list with its top first: \<open>scope_stack[-1]\<close> is the head, \<open>append\<close> is \<open>#\<close>, and
  \<open>del scope_stack[-1]\<close> drops the head.
\<close>

record scope =
  scope_node :: node
  names :: "string set"
  globals :: "node list"

record visitor =
  errors :: "finding list"
  scope_stack :: "scope list"

definition append_error :: "visitor \<Rightarrow> node \<Rightarrow> string \<Rightarrow> visitor" where
  "append_error s n message = s\<lparr>errors := errors s @ [(n, message)]\<rparr>"

definition block :: "node list \<Rightarrow> bool \<Rightarrow> bool \<Rightarrow> bool \<Rightarrow> bool \<Rightarrow> visitor \<Rightarrow> visitor" where
  "block nodes block_required nodes_required docstring can_have_unused_expr s =
     s\<lparr>errors := visit_block nodes block_required nodes_required docstring
                    can_have_unused_expr (errors s)\<rparr>"

text \<open>
  A child the grammar requires (\<open>Compare.left\<close>, an element of \<open>comparators\<close>): the node in
  the field.  The second case is never met on a parsed tree.
\<close>

definition as_node :: "field \<Rightarrow> node" where
  "as_node f = (case f of FNode n \<Rightarrow> n | _ \<Rightarrow> Node ''NoneType'' 0 0 [])"

definition sub :: "field \<Rightarrow> string \<Rightarrow> field" where
  "sub f name = (case f of FNode n \<Rightarrow> get_field n name | _ \<Rightarrow> FVal PNone)"

text \<open>\<open>str(value)\<close> of an identifier field, as \<open>format\<close> prints it.\<close>

definition format_field :: "field \<Rightarrow> string" where
  "format_field f = (case f of FVal (PStr x) \<Rightarrow> x | _ \<Rightarrow> ''None'')"

definition get_identifier :: "field \<Rightarrow> string option" where
  "get_identifier f =
     (case f of
        FNode n \<Rightarrow>
          if is_instance n [''Name''] then Some (get_str n ''id'')
          else if is_instance n [''Attribute'']
                  \<and> field_instance (get_field n ''value'') [''Name'']
          then Some (format_field (sub (get_field n ''value'') ''id'') @ ''.''
                     @ format_field (get_field n ''attr''))
          else None
      | _ \<Rightarrow> None)"

text \<open>
  The loops of \<open>_check_redundant_else\<close>: \<open>None\<close> when a handler has no leaving statement
  (the \<open>return\<close> of the \<open>for ... else\<close>), otherwise \<open>leave_node\<close> as the loops leave it,
  which is unbound when there is no handler.
\<close>

fun redundant_else_loop :: "node list \<Rightarrow> node option \<Rightarrow> node option option" where
  "redundant_else_loop [] leave = Some leave"
| "redundant_else_loop (handler # handlers) leave =
     (case find (\<lambda>child. is_instance child LEAVE_BLOCK) (get_nodes handler ''body'') of
        None \<Rightarrow> None
      | Some child \<Rightarrow> redundant_else_loop handlers (Some child))"

definition check_redundant_else :: "node \<Rightarrow> node list \<Rightarrow> string \<Rightarrow> visitor \<Rightarrow> exc + visitor" where
  "check_redundant_else n handlers clause s =
     (case get_nodes n ''orelse'' of
        [] \<Rightarrow> Inr s
      | first # _ \<Rightarrow>
          (case redundant_else_loop handlers None of
             None \<Rightarrow> Inr s
           | Some None \<Rightarrow> Inl (Exception ''UnboundLocalError'')
           | Some (Some leave) \<Rightarrow>
               Inr (append_error s first
                      (''A206 Extraneous else statement after '' @ get_statement leave
                       @ '' in '' @ clause @ ''-clause''))))"

text \<open>
  The visit methods.  Each calls \<open>self.generic_visit(node)\<close> at most once; \<open>visit_X\<close> below
  is the method up to that call, and format_name function \<open>visit\<close> further down runs the children
  and then the rest of the method (\<open>leave\<close>).
\<close>

definition visit_If :: "node \<Rightarrow> visitor \<Rightarrow> exc + visitor" where
  "visit_If n s =
     (let s1 = block (get_nodes n ''body'') (get_nodes n ''orelse'' \<noteq> []) True False False s;
          s2 = block (get_nodes n ''orelse'') False True False False s1
      in check_redundant_else n [n] ''if'' s2)"

definition visit_Try :: "node \<Rightarrow> visitor \<Rightarrow> exc + visitor" where
  "visit_Try n s =
     (let s1 = block (get_nodes n ''body'') False True False (get_nodes n ''handlers'' \<noteq> []) s;
          s2 = block (get_nodes n ''orelse'') False True False False s1;
          s3 = block (get_nodes n ''finalbody'') False True False False s2
      in check_redundant_else n (get_nodes n ''handlers'') ''except'' s3)"

definition visit_TryExcept :: "node \<Rightarrow> visitor \<Rightarrow> exc + visitor" where
  "visit_TryExcept n s =
     (let s1 = block (get_nodes n ''body'') False True False True s;
          s2 = block (get_nodes n ''orelse'') False True False False s1
      in check_redundant_else n (get_nodes n ''handlers'') ''except'' s2)"

definition visit_TryFinally :: "node \<Rightarrow> visitor \<Rightarrow> exc + visitor" where
  "visit_TryFinally n s =
     (let s1 = block (get_nodes n ''body'') False True False False s
      in Inr (block (get_nodes n ''finalbody'') False True False False s1))"

definition visit_ExceptHandler :: "node \<Rightarrow> visitor \<Rightarrow> exc + visitor" where
  "visit_ExceptHandler n s = Inr (block (get_nodes n ''body'') True True False False s)"

definition visit_stored_name :: "node \<Rightarrow> string \<Rightarrow> visitor \<Rightarrow> exc + visitor" where
  "visit_stored_name n name s =
     (case scope_stack s of
        [] \<Rightarrow> Inl (Exception ''IndexError'')
      | sc # rest \<Rightarrow>
          (let s1 = s\<lparr>scope_stack := sc\<lparr>names := insert name (names sc)\<rparr> # rest\<rparr>
           in Inr (if name \<in> set ESSENTIAL_BUILTINS \<and> is_instance (scope_node sc) [''FunctionDef'']
                   then append_error s1 n (''A302 redefined built-in '' @ name)
                   else s1)))"

definition visit_Name :: "node \<Rightarrow> visitor \<Rightarrow> exc + visitor" where
  "visit_Name n s =
     (if field_instance (get_field n ''ctx'') [''Store'', ''Param'']
      then visit_stored_name n (get_str n ''id'') s
      else Inr s)"

definition visit_arg :: "node \<Rightarrow> visitor \<Rightarrow> exc + visitor" where
  "visit_arg n s = visit_stored_name n (get_str n ''arg'') s"

text \<open>\<open>_visit_with_scope\<close> before its \<open>generic_visit\<close>, and after it.\<close>

definition push_scope :: "node \<Rightarrow> visitor \<Rightarrow> visitor" where
  "push_scope n s =
     s\<lparr>scope_stack := \<lparr>scope_node = n, names = {}, globals = []\<rparr> # scope_stack s\<rparr>"

definition pop_scope :: "visitor \<Rightarrow> exc + (visitor \<times> scope)" where
  "pop_scope s =
     (case scope_stack s of
        [] \<Rightarrow> Inl (Exception ''IndexError'')
      | sc # rest \<Rightarrow> Inr (s\<lparr>scope_stack := rest\<rparr>, sc))"

definition visit_Module :: "node \<Rightarrow> visitor \<Rightarrow> exc + visitor" where
  "visit_Module n s = Inr (push_scope n (block (get_nodes n ''body'') True False True False s))"

definition visit_FunctionDef :: "node \<Rightarrow> visitor \<Rightarrow> exc + visitor" where
  "visit_FunctionDef n s =
     (case visit_stored_name n (get_str n ''name'') s of
        Inl e \<Rightarrow> Inl e
      | Inr s1 \<Rightarrow> Inr (push_scope n (block (get_nodes n ''body'') True True True False s1)))"

text \<open>
  \<open>visit_FunctionDef\<close> after \<open>_visit_with_scope\<close> has run the children: the scope is deleted
  from the stack and its declarations are checked.  The scope \<open>_visit_with_scope\<close> returns
  is the object it pushed; the model takes the top of the stack, where that object is when
  the children are done (lemma \<open>visit_scope_stack\<close> below).
\<close>

fun strings_of :: "field list \<Rightarrow> string list" where
  "strings_of [] = []"
| "strings_of (FVal (PStr x) # fs) = x # strings_of fs"
| "strings_of (_ # fs) = strings_of fs"

fun declared_names_loop ::
  "scope \<Rightarrow> node \<Rightarrow> string list \<Rightarrow> string set \<times> visitor \<Rightarrow> string set \<times> visitor" where
  "declared_names_loop sc declaration [] (global_names, s) = (global_names, s)"
| "declared_names_loop sc declaration (name # rest) (global_names, s) =
     declared_names_loop sc declaration rest
       (if name \<notin> names sc \<or> name \<in> global_names
        then (global_names,
              append_error s declaration
                (''A201 redundant '' @ get_statement declaration @ '' declaration for '' @ name))
        else (insert name global_names, s))"

fun declarations_loop :: "scope \<Rightarrow> node list \<Rightarrow> string set \<times> visitor \<Rightarrow> string set \<times> visitor" where
  "declarations_loop sc [] acc = acc"
| "declarations_loop sc (declaration # rest) acc =
     declarations_loop sc rest
       (declared_names_loop sc declaration (strings_of (get_list declaration ''names'')) acc)"

definition leave_FunctionDef :: "visitor \<Rightarrow> exc + visitor" where
  "leave_FunctionDef s =
     (case pop_scope s of
        Inl e \<Rightarrow> Inl e
      | Inr (s1, sc) \<Rightarrow> Inr (snd (declarations_loop sc (globals sc) ({}, s1))))"

definition leave_Module :: "visitor \<Rightarrow> exc + visitor" where
  "leave_Module s = (case pop_scope s of Inl e \<Rightarrow> Inl e | Inr (s1, sc) \<Rightarrow> Inr s1)"

definition visit_Global :: "node \<Rightarrow> visitor \<Rightarrow> exc + visitor" where
  "visit_Global n s =
     (case scope_stack s of
        [] \<Rightarrow> Inl (Exception ''IndexError'')
      | sc # rest \<Rightarrow>
          (let s1 = s\<lparr>scope_stack := sc\<lparr>globals := globals sc @ [n]\<rparr> # rest\<rparr>
           in Inr (if is_instance (scope_node sc) [''Module'']
                   then append_error s1 n
                          (''A201 '' @ get_statement n @ '' declaration on top-level'')
                   else s1)))"

definition visit_iter :: "field \<Rightarrow> visitor \<Rightarrow> visitor" where
  "visit_iter f s =
     (if field_instance f [''Tuple'', ''Set'']
      then append_error s (as_node f) ''A101 use lists for data that have order''
      else s)"

definition visit_comprehension :: "node \<Rightarrow> visitor \<Rightarrow> exc + visitor" where
  "visit_comprehension n s = Inr (visit_iter (get_field n ''iter'') s)"

definition visit_For :: "node \<Rightarrow> visitor \<Rightarrow> exc + visitor" where
  "visit_For n s =
     (let s1 = visit_iter (get_field n ''iter'') s;
          s2 = block (get_nodes n ''body'') True True False False s1
      in Inr (block (get_nodes n ''orelse'') False True False False s2))"

definition visit_While :: "node \<Rightarrow> visitor \<Rightarrow> exc + visitor" where
  "visit_While n s =
     (let s1 = block (get_nodes n ''body'') True True False False s
      in Inr (block (get_nodes n ''orelse'') False True False False s1))"

definition visit_BinOp :: "node \<Rightarrow> visitor \<Rightarrow> exc + visitor" where
  "visit_BinOp n s =
     (let left = get_field n ''left'';
          s1 = (if field_instance (get_field n ''op'') [''Mod''] \<and> field_instance left [''Str'']
                then append_error s n
                       ''A107 use format() instead of % operator for string formatting''
                else s);
          multi_addition = (field_instance (get_field n ''op'') [''Add'']
                            \<and> field_instance left [''BinOp'']
                            \<and> field_instance (sub left ''op'') [''Add''])
      in Inr (if multi_addition \<and> (field_instance (sub left ''left'') [''Str'']
                                    \<or> field_instance (sub left ''right'') [''Str'']
                                    \<or> field_instance (get_field n ''right'') [''Str''])
              then append_error s1 n
                     (''A108 use format() instead of + operator when concatenating ''
                      @ ''more than two strings'')
              else s1))"

text \<open>
  \<open>consts_first and is_const(left) and not is_const(right)\<close>: \<open>and\<close> evaluates its right
  operand only when the left one is true.
\<close>

definition yoda :: "interpreter \<Rightarrow> bool \<Rightarrow> field \<Rightarrow> field \<Rightarrow> exc + bool" where
  "yoda ev consts_first left right =
     (if \<not> consts_first then Inr False
      else case is_const ev left of
             Inl e \<Rightarrow> Inl e
           | Inr False \<Rightarrow> Inr False
           | Inr True \<Rightarrow> (case is_const ev right of Inl e \<Rightarrow> Inl e | Inr c \<Rightarrow> Inr (\<not> c)))"

text \<open>The loop \<open>for op, right in zip(node.ops, node.comparators)\<close> with its variable \<open>left\<close>.\<close>

fun compare_loop ::
  "interpreter \<Rightarrow> bool \<Rightarrow> field \<Rightarrow> (field \<times> field) list \<Rightarrow> visitor \<Rightarrow> exc + visitor" where
  "compare_loop ev single left [] s = Inr s"
| "compare_loop ev single left ((op, right) # rest) s =
     (let membership = field_instance op [''In'', ''NotIn''];
          symmetric = field_instance op [''Eq'', ''NotEq'', ''Is'', ''IsNot''];
          s1 = (if membership \<and> field_instance right [''Tuple'', ''List'']
                then append_error s (as_node right) ''A102 use sets for distinct unordered data''
                else s);
          consts_first = (single \<and> \<not> membership \<or> symmetric)
      in case yoda ev consts_first left right of
           Inl e \<Rightarrow> Inl e
         | Inr y \<Rightarrow>
             compare_loop ev single right rest
               (if y then append_error s1 (as_node left) ''A103 yoda condition'' else s1))"

definition visit_Compare :: "interpreter \<Rightarrow> node \<Rightarrow> visitor \<Rightarrow> exc + visitor" where
  "visit_Compare ev n s =
     compare_loop ev (length (get_list n ''ops'') = 1) (get_field n ''left'')
       (zip (get_list n ''ops'') (get_list n ''comparators'')) s"

definition DISCOURAGED_APIS :: "(string \<times> string) list" where
  "DISCOURAGED_APIS = [(''re.match'', ''re.search''), (''codecs.open'', ''io.open'')]"

definition check_deprecated :: "node \<Rightarrow> string option \<Rightarrow> visitor \<Rightarrow> visitor" where
  "check_deprecated n name s =
     (case name of
        None \<Rightarrow> s
      | Some x \<Rightarrow>
          (case map_of DISCOURAGED_APIS x of
             None \<Rightarrow> s
           | Some substitute \<Rightarrow>
               if substitute = [] then s
               else append_error s n (''A301 use '' @ substitute @ ''() instead of '' @ x @ ''()'')))"

text \<open>\<open>'{}'.format(func)\<close> for the optional identifier.\<close>

definition format_name :: "string option \<Rightarrow> string" where
  "format_name func = (case func of None \<Rightarrow> ''None'' | Some f \<Rightarrow> f)"

definition in_names :: "string option \<Rightarrow> string list \<Rightarrow> bool" where
  "in_names func xs = (case func of None \<Rightarrow> False | Some f \<Rightarrow> f \<in> set xs)"

definition visit_Call :: "node \<Rightarrow> visitor \<Rightarrow> exc + visitor" where
  "visit_Call n s =
     (let func = get_identifier (get_field n ''func'');
          args = get_list n ''args'';
          arg = (case args of [] \<Rightarrow> FVal PNone | a # _ \<Rightarrow> a);
          s1 = (if field_instance arg [''Lambda'']
                   \<and> length args = 2
                   \<and> in_names func [''map'', ''filter'', ''imap'', ''ifilter'',
                                     ''itertools.imap'', ''itertools.ifilter'']
                then append_error s n
                       (''A104 use a comprehension instead of calling '' @ format_name func
                        @ ''() with lambda function'')
                else s);
          redundant_literal =
            (if field_instance arg [''Lambda''] then False
             else if field_instance arg [''List'', ''Tuple'']
             then (if func = Some ''dict''
                   then list_all (\<lambda>elt. field_instance elt [''Tuple'', ''List''])
                          (get_list (as_node arg) ''elts'')
                   else in_names func [''list'', ''set'', ''tuple''])
             else if field_instance arg [''ListComp'', ''GeneratorExp'']
             then (if func = Some ''dict''
                   then field_instance (sub arg ''elt'') [''Tuple'', ''List'']
                   else in_names func [''list'', ''set''])
             else False);
          s2 = (if redundant_literal
                then append_error s1 n
                       (''A105 use a '' @ format_name func @ '' literal or comprehension instead of ''
                        @ ''calling '' @ format_name func @ ''()'')
                else s1)
      in Inr (check_deprecated n func s2))"

text \<open>\<open>alias.asname or alias.name\<close>.\<close>

definition alias_name :: "node \<Rightarrow> string" where
  "alias_name alias =
     (if get_str alias ''asname'' \<noteq> [] then get_str alias ''asname'' else get_str alias ''name'')"

fun import_loop :: "node \<Rightarrow> node list \<Rightarrow> visitor \<Rightarrow> exc + visitor" where
  "import_loop n [] s = Inr s"
| "import_loop n (alias # rest) s =
     (case visit_stored_name n (alias_name alias) s of
        Inl e \<Rightarrow> Inl e
      | Inr s1 \<Rightarrow>
          import_loop n rest
            (if map_of (node_fields n) ''module'' \<noteq> None
             then check_deprecated n
                    (Some (format_field (get_field n ''module'') @ ''.''
                           @ format_field (get_field alias ''name''))) s1
             else s1))"

definition visit_Import :: "node \<Rightarrow> visitor \<Rightarrow> exc + visitor" where
  "visit_Import n s = import_loop n (get_nodes n ''names'') s"

definition visit_Assign :: "node \<Rightarrow> visitor \<Rightarrow> exc + visitor" where
  "visit_Assign n s =
     (let targets = get_list n ''targets''; v = get_field n ''value''
      in Inr (if field_instance v [''BinOp''] \<and> length targets = 1
                 \<and> field_instance (hd targets) [''Name'']
                 \<and> field_instance (sub v ''left'') [''Name'']
                 \<and> sub (hd targets) ''id'' = sub (sub v ''left'') ''id''
              then append_error s n ''A106 use augment assignment, e.g. x += y instead x = x + y''
              else s))"

text \<open>The loop of \<open>_visit_hash_keys\<close>, with \<open>keys\<close> and the namespace the evaluations share.\<close>

fun hash_keys_loop ::
  "interpreter \<Rightarrow> string \<Rightarrow> field list \<Rightarrow> pyval list \<Rightarrow> namespace \<Rightarrow> visitor \<Rightarrow> exc + visitor" where
  "hash_keys_loop ev what [] keys ns s = Inr s"
| "hash_keys_loop ev what (n # rest) keys ns s =
     (case evaluate ev n ns of
        (Inl e, ns') \<Rightarrow> Inl e
      | (Inr VOLATILE, ns') \<Rightarrow> hash_keys_loop ev what rest keys ns' s
      | (Inr (Value key), ns') \<Rightarrow>
          if py_in key keys
          then hash_keys_loop ev what rest keys ns'
                 (append_error s (as_node n) (''A207 duplicate '' @ what))
          else hash_keys_loop ev what rest (keys @ [key]) ns' s)"

definition visit_hash_keys :: "interpreter \<Rightarrow> field list \<Rightarrow> string \<Rightarrow> visitor \<Rightarrow> exc + visitor" where
  "visit_hash_keys ev nodes what s = hash_keys_loop ev what nodes [] hash_namespace s"

definition visit_Dict :: "interpreter \<Rightarrow> node \<Rightarrow> visitor \<Rightarrow> exc + visitor" where
  "visit_Dict ev n s = visit_hash_keys ev (get_list n ''keys'') ''key in dict'' s"

definition visit_Set :: "interpreter \<Rightarrow> node \<Rightarrow> visitor \<Rightarrow> exc + visitor" where
  "visit_Set ev n s = visit_hash_keys ev (get_list n ''elts'') ''item in set'' s"

text \<open>
  \<open>NodeVisitor.visit\<close> looks the method up by the class name and falls back on
  \<open>generic_visit\<close>.  \<open>enter\<close> runs the method up to its \<open>generic_visit\<close> call and says whether
  the method makes that call (\<open>Descend\<close>) or not (\<open>Done\<close>: \<open>visit_Name\<close>, \<open>visit_arg\<close>,
  \<open>visit_Global\<close>, \<open>visit_Import\<close>, \<open>visit_Dict\<close>, \<open>visit_Set\<close>); \<open>leave\<close> is what the method does
  after the call.
\<close>

datatype entered = Descend visitor | Done visitor

definition descend :: "exc + visitor \<Rightarrow> exc + entered" where
  "descend r = (case r of Inl e \<Rightarrow> Inl e | Inr s \<Rightarrow> Inr (Descend s))"

definition finish :: "exc + visitor \<Rightarrow> exc + entered" where
  "finish r = (case r of Inl e \<Rightarrow> Inl e | Inr s \<Rightarrow> Inr (Done s))"

definition enter :: "interpreter \<Rightarrow> node \<Rightarrow> visitor \<Rightarrow> exc + entered" where
  "enter ev n s =
     (if cls n = ''If'' then descend (visit_If n s)
      else if cls n = ''Try'' then descend (visit_Try n s)
      else if cls n = ''TryExcept'' then descend (visit_TryExcept n s)
      else if cls n = ''TryFinally'' then descend (visit_TryFinally n s)
      else if cls n = ''ExceptHandler'' then descend (visit_ExceptHandler n s)
      else if cls n = ''Name'' then finish (visit_Name n s)
      else if cls n = ''arg'' then finish (visit_arg n s)
      else if cls n = ''Module'' then descend (visit_Module n s)
      else if cls n = ''FunctionDef'' \<or> cls n = ''ClassDef'' then descend (visit_FunctionDef n s)
      else if cls n = ''Global'' \<or> cls n = ''Nonlocal'' then finish (visit_Global n s)
      else if cls n = ''comprehension'' then descend (visit_comprehension n s)
      else if cls n = ''For'' then descend (visit_For n s)
      else if cls n = ''While'' then descend (visit_While n s)
      else if cls n = ''BinOp'' then descend (visit_BinOp n s)
      else if cls n = ''Compare'' then descend (visit_Compare ev n s)
      else if cls n = ''Call'' then descend (visit_Call n s)
      else if cls n = ''Import'' \<or> cls n = ''ImportFrom'' then finish (visit_Import n s)
      else if cls n = ''Assign'' then descend (visit_Assign n s)
      else if cls n = ''Dict'' then finish (visit_Dict ev n s)
      else if cls n = ''Set'' then finish (visit_Set ev n s)
      else Inr (Descend s))"

definition leave :: "node \<Rightarrow> visitor \<Rightarrow> exc + visitor" where
  "leave n s =
     (if cls n = ''Module'' then leave_Module s
      else if cls n = ''FunctionDef'' \<or> cls n = ''ClassDef'' then leave_FunctionDef s
      else Inr s)"

text \<open>Running a visit over a list of nodes, in order, until one raises.\<close>

fun each :: "(node \<Rightarrow> visitor \<Rightarrow> exc + visitor) \<Rightarrow> node list \<Rightarrow> visitor \<Rightarrow> exc + visitor" where
  "each f [] s = Inr s"
| "each f (n # ns) s = (case f n s of Inl e \<Rightarrow> Inl e | Inr s1 \<Rightarrow> each f ns s1)"

lemma each_cong [fundef_cong]:
  "ns = ms \<Longrightarrow> s = t \<Longrightarrow> (\<And>n u. n \<in> set ms \<Longrightarrow> f n u = g n u) \<Longrightarrow> each f ns s = each g ms t"
proof (induction ns arbitrary: ms s t)
  case Nil
  then show ?case by auto
next
  case (Cons a ns)
  then show ?case by (cases ms) (auto split: sum.splits)
qed

lemma size_nodes_of: "n \<in> set (nodes_of fs) \<Longrightarrow> size n < Suc (size_list size fs)"
  by (induction fs rule: nodes_of.induct) auto

lemma size_field_children: "n \<in> set (field_children f) \<Longrightarrow> size n \<le> size f"
  using size_nodes_of by (cases f) fastforce+

lemma size_child_nodes: "c \<in> set (child_nodes n) \<Longrightarrow> size c < size n"
proof -
  assume "c \<in> set (child_nodes n)"
  then obtain name f where in_fields: "(name, f) \<in> set (node_fields n)"
    and in_f: "c \<in> set (field_children f)"
    by (auto simp add: child_nodes_def)
  have "size f \<le> size_list (size_prod (\<lambda>_. 0) size) (node_fields n)"
    using in_fields by (induction "node_fields n" arbitrary: n) (auto simp add: size_list_estimation')
  then show ?thesis using size_field_children [OF in_f] by (cases n) simp
qed

function visit :: "interpreter \<Rightarrow> node \<Rightarrow> visitor \<Rightarrow> exc + visitor" where
  "visit ev n s =
     (case enter ev n s of
        Inl e \<Rightarrow> Inl e
      | Inr (Done s1) \<Rightarrow> Inr s1
      | Inr (Descend s1) \<Rightarrow>
          (case each (visit ev) (child_nodes n) s1 of
             Inl e \<Rightarrow> Inl e
           | Inr s2 \<Rightarrow> leave n s2))"
  by pat_completeness auto
termination
  by (relation "measure (\<lambda>(ev, n, s). size n)") (auto simp add: size_child_nodes)

declare visit.simps [simp del]

text \<open>\<open>check_ast\<close>: the findings of a finished traversal, or the exception that ended it.\<close>

definition check_ast :: "interpreter \<Rightarrow> node \<Rightarrow> exc + (int \<times> int \<times> string \<times> pyval) list" where
  "check_ast ev tree =
     (case visit ev tree \<lparr>errors = [], scope_stack = []\<rparr> of
        Inl e \<Rightarrow> Inl e
      | Inr s \<Rightarrow> Inr (map (\<lambda>(n, error). (lineno n, col_offset n, error, PNone)) (errors s)))"

section \<open>Notions and example trees for the properties of the tree visitor\<close>

text \<open>\<open>def f(): pass\<close> and \<open>def f(): pass; return 1\<close>, each statement on a line of its own.\<close>

definition no_arguments :: node where
  "no_arguments =
     Node ''arguments'' 0 0
       [(''args'', FList []), (''vararg'', FVal PNone), (''kwonlyargs'', FList []),
        (''kw_defaults'', FList []), (''kwarg'', FVal PNone), (''defaults'', FList [])]"

definition def_pass :: node where
  "def_pass =
     Node ''FunctionDef'' 1 0
       [(''name'', FVal (PStr ''f'')), (''args'', FNode no_arguments),
        (''body'', FList [FNode (Node ''Pass'' 2 4 [])]),
        (''decorator_list'', FList []), (''returns'', FVal PNone)]"

definition def_pass_return :: node where
  "def_pass_return =
     Node ''FunctionDef'' 1 0
       [(''name'', FVal (PStr ''f'')), (''args'', FNode no_arguments),
        (''body'', FList [FNode (Node ''Pass'' 2 4 []),
                          FNode (Node ''Return'' 3 4
                                   [(''value'', FNode (Node ''Num'' 3 11 [(''n'', FVal (PInt 1))]))])]),
        (''decorator_list'', FList []), (''returns'', FVal PNone)]"

definition module :: "node list \<Rightarrow> node" where
  "module body = Node ''Module'' 0 0 [(''body'', FList (map FNode body))]"

text \<open>A name that is read, a number literal, and the call \<open>exit()\<close>.\<close>

definition name_load :: "string \<Rightarrow> int \<Rightarrow> int \<Rightarrow> node" where
  "name_load x line col =
     Node ''Name'' line col [(''id'', FVal (PStr x)), (''ctx'', FNode (Node ''Load'' 0 0 []))]"

definition num :: "int \<Rightarrow> int \<Rightarrow> int \<Rightarrow> node" where
  "num k line col = Node ''Num'' line col [(''n'', FVal (PInt k))]"

definition call_exit :: node where
  "call_exit =
     Node ''Call'' 1 1
       [(''func'', FNode (name_load ''exit'' 1 1)), (''args'', FList []), (''keywords'', FList [])]"

text \<open>
  \<open>consts_first\<close> of \<open>visit_Compare\<close> as a function of the operator, and the statement
  \<open>if left op right: f()\<close> on line 1.
\<close>

definition consts_first :: "bool \<Rightarrow> field \<Rightarrow> bool" where
  "consts_first single op =
     (single \<and> \<not> field_instance op [''In'', ''NotIn'']
      \<or> field_instance op [''Eq'', ''NotEq'', ''Is'', ''IsNot''])"

definition call_f :: node where
  "call_f =
     Node ''Expr'' 1 11
       [(''value'', FNode (Node ''Call'' 1 11
           [(''func'', FNode (name_load ''f'' 1 11)), (''args'', FList []),
            (''keywords'', FList [])]))]"

definition compare :: "node \<Rightarrow> string \<Rightarrow> node \<Rightarrow> node" where
  "compare left op right =
     Node ''Compare'' 1 3
       [(''left'', FNode left), (''ops'', FList [FNode (Node op 0 0 [])]),
        (''comparators'', FList [FNode right])]"

definition if_compare :: "node \<Rightarrow> string \<Rightarrow> node \<Rightarrow> node" where
  "if_compare left op right =
     Node ''If'' 1 0
       [(''test'', FNode (compare left op right)), (''body'', FList [FNode call_f]),
        (''orelse'', FList [])]"














section \<open>The token checks\<close>

text \<open>
  A token of \<open>tokenize\<close>: its kind, its string, the (row, column) where it starts and where
  it ends, and the physical line.
\<close>

datatype token_kind =
  NAME | NUMBER | STRING | OP | INDENT | DEDENT | NEWLINE | NL | COMMENT | ENDMARKER | ERRORTOKEN

record token =
  tok_kind :: token_kind
  tok_string :: string
  tok_start :: "int \<times> int"
  tok_end :: "int \<times> int"
  tok_line :: string

type_synonym line_finding = "(int \<times> int) \<times> string"

subsection \<open>Quotes\<close>

text \<open>
  \<open>re.search(r'^([rub]*)([\'"]{1,3})(.*)\2$', token, re.IGNORECASE | re.DOTALL)\<close>.  The
  first group takes every leading letter of \<open>rubRUB\<close>, since a shorter run is not followed
  by a quote.  The second group takes three quote characters, then two, then one, as many as
  there are.  For each, \<open>(.*)\2$\<close> takes the longest text that leaves the same quote
  characters at the end of the token, or before a newline that ends it.
\<close>

definition is_rub :: "char \<Rightarrow> bool" where
  "is_rub c = (c \<in> set ''rubRUB'')"

definition is_quote :: "char \<Rightarrow> bool" where
  "is_quote c = (c = CHR 0x27 \<or> c = CHR 0x22)"

definition match_tail :: "string \<Rightarrow> string \<Rightarrow> string option" where
  "match_tail quote r =
     (if length quote \<le> length r \<and> drop (length r - length quote) r = quote
      then Some (take (length r - length quote) r)
      else if length quote + 1 \<le> length r
              \<and> drop (length r - length quote - 1) r = quote @ [CHR 0x0A]
      then Some (take (length r - length quote - 1) r)
      else None)"

definition try_quote :: "nat \<Rightarrow> string \<Rightarrow> (string \<times> string) option" where
  "try_quote k r =
     (if k \<le> length (takeWhile is_quote r)
      then (case match_tail (take k r) (drop k r) of
              Some t \<Rightarrow> Some (take k r, t)
            | None \<Rightarrow> None)
      else None)"

definition match_string_literal :: "string \<Rightarrow> (string \<times> string \<times> string) option" where
  "match_string_literal token =
     (let prefixes = takeWhile is_rub token; r = dropWhile is_rub token
      in case try_quote 3 r of
           Some (quote, t) \<Rightarrow> Some (prefixes, quote, t)
         | None \<Rightarrow>
             (case try_quote 2 r of
                Some (quote, t) \<Rightarrow> Some (prefixes, quote, t)
              | None \<Rightarrow>
                  (case try_quote 1 r of
                     Some (quote, t) \<Rightarrow> Some (prefixes, quote, t)
                   | None \<Rightarrow> None)))"

text \<open>\<open>re.search(r'^(?:(?:def|class)\s|$)', previous_logical)\<close>, as a truth value.\<close>

definition after_def_or_blank :: "string \<Rightarrow> bool" where
  "after_def_or_blank previous_logical =
     ((starts_with ''def'' previous_logical \<and> length previous_logical > 3
         \<and> is_space (previous_logical ! 3))
      \<or> (starts_with ''class'' previous_logical \<and> length previous_logical > 5
         \<and> is_space (previous_logical ! 5))
      \<or> previous_logical = [] \<or> previous_logical = [CHR 0x0A])"

definition A112 :: string where
  "A112 = ''A112 use \"from __future__ import unicode_literals\" instead of ''
          @ ''prefixing literals with \"u\"''"

text \<open>
  The \<open>if\<close> chain on a string token after the A112 test.  \<open>major\<close> is
  \<open>sys.version_info[0]\<close>, and \<open>ascii_eval literal\<close> is \<open>ascii(eval(literal))\<close>, which is
  Python's: both are parameters.  The result is the findings the chain yields, or the
  exception \<open>eval\<close> raises.
\<close>

definition quote_findings ::
  "nat \<Rightarrow> (string \<Rightarrow> exc + string) \<Rightarrow> string \<Rightarrow> (string \<rightharpoonup> bool) \<Rightarrow> bool \<Rightarrow> token
   \<Rightarrow> string \<Rightarrow> string \<Rightarrow> string \<Rightarrow> exc + line_finding list" where
  "quote_findings major ascii_eval previous_logical checker_state first_token t prefixes quote txt =
     (if first_token \<and> after_def_or_blank previous_logical then Inr []
      else if fst (tok_start t) \<noteq> fst (tok_end t) then Inr []
      else if CHR ''r'' \<in> set prefixes
      then Inr (if quote \<noteq> [CHR 0x27] \<and> \<not> (quote = [CHR 0x22] \<and> CHR 0x27 \<in> set txt)
                then [(tok_start t, ''A110 use single quotes for raw string'')]
                else [])
      else
        (let prefix =
               (if major \<ge> 3
                then (if CHR ''b'' \<in> set prefixes then ''b'' else [])
                else (if CHR ''u'' \<in> set prefixes
                         \<or> checker_state ''has_unicode_literals'' = Some True
                            \<and> CHR ''b'' \<notin> set prefixes
                      then ''u'' else []));
             literal = prefix @ quote @ txt @ quote
         in case ascii_eval literal of
              Inl e \<Rightarrow> Inl e
            | Inr printed \<Rightarrow>
                Inr (if printed \<noteq> literal
                     then [(tok_start t, ''A110 string literal doesn't match ''
                                         @ (if major \<ge> 3 then ''ascii'' else ''repr'') @ ''()'')]
                     else [])))"

text \<open>
  The loop over the tokens of \<open>check_quotes\<close>, a generator: the findings it yields, and the
  exception that ends it, if one does (\<open>AttributeError\<close> when the pattern does not match a
  string token and \<open>match\<close> is \<open>None\<close>).
\<close>

fun quotes_loop ::
  "nat \<Rightarrow> (string \<Rightarrow> exc + string) \<Rightarrow> string \<Rightarrow> (string \<rightharpoonup> bool) \<Rightarrow> bool \<Rightarrow> token list
   \<Rightarrow> line_finding list \<times> exc option" where
  "quotes_loop major ascii_eval previous_logical checker_state first_token [] = ([], None)"
| "quotes_loop major ascii_eval previous_logical checker_state first_token (t # ts) =
     (if tok_kind t = INDENT \<or> tok_kind t = DEDENT
      then quotes_loop major ascii_eval previous_logical checker_state first_token ts
      else if tok_kind t = STRING
      then (case match_string_literal (tok_string t) of
              None \<Rightarrow> ([], Some (Exception ''AttributeError''))
            | Some (prefixes0, quote, txt) \<Rightarrow>
                (let prefixes = lower prefixes0;
                     u = (if CHR ''u'' \<in> set prefixes then [(tok_start t, A112)] else [])
                 in case quote_findings major ascii_eval previous_logical checker_state
                           first_token t prefixes quote txt of
                      Inl e \<Rightarrow> (u, Some e)
                    | Inr q \<Rightarrow>
                        (case quotes_loop major ascii_eval previous_logical checker_state False ts of
                           (rest, raised) \<Rightarrow> (u @ q @ rest, raised))))
      else quotes_loop major ascii_eval previous_logical checker_state False ts)"

text \<open>
  \<open>check_quotes\<close>: the findings yielded, the exception raised if any, and \<open>checker_state\<close> as
  the call leaves it.
\<close>

definition check_quotes ::
  "nat \<Rightarrow> (string \<Rightarrow> exc + string) \<Rightarrow> string \<Rightarrow> token list \<Rightarrow> string \<Rightarrow> (string \<rightharpoonup> bool)
   \<Rightarrow> line_finding list \<times> exc option \<times> (string \<rightharpoonup> bool)" where
  "check_quotes major ascii_eval logical_line tokens previous_logical checker_state =
     (let token_strings = map tok_string tokens;
          future_import = (take 3 token_strings = [''from'', ''__future__'', ''import'']);
          checker_state1 = (if future_import \<and> ''unicode_literals'' \<in> set token_strings
                            then checker_state(''has_unicode_literals'' \<mapsto> True)
                            else checker_state)
      in case quotes_loop major ascii_eval previous_logical checker_state1 True tokens of
           (found, raised) \<Rightarrow> (found, raised, checker_state1))"

subsection \<open>Redundant parentheses\<close>

definition is_op :: "string \<Rightarrow> token \<Rightarrow> bool" where
  "is_op x t = (tok_kind t = OP \<and> tok_string t = x)"

text \<open>
  The loop of \<open>check_redundant_parenthesis\<close> over \<open>tokens[i:]\<close>, with \<open>level\<close> and, once
  set, \<open>statement\<close> and \<open>pos\<close>.  \<open>tokens[i + 1]\<close> and \<open>tokens[i + 2]\<close> are the second and third
  token of \<open>tokens[i:]\<close>, and raise \<open>IndexError\<close> when there is none.  \<open>break\<close> ends the loop
  with no finding.
\<close>

fun paren_loop ::
  "int \<Rightarrow> int \<Rightarrow> (string \<times> (int \<times> int)) option \<Rightarrow> token list \<Rightarrow> exc + line_finding list" where
  "paren_loop start_line level st [] = Inr []"
| "paren_loop start_line level st (t # rest) =
     (if tok_kind t = INDENT \<or> tok_kind t = DEDENT then paren_loop start_line level st rest
      else case st of
        None \<Rightarrow>
          if tok_kind t \<noteq> NAME \<or> tok_string t \<notin> set [''if'', ''elif'', ''while''] then Inr []
          else (case rest of
                  [] \<Rightarrow> Inl (Exception ''IndexError'')
                | next_token # rest2 \<Rightarrow>
                    if \<not> is_op ''('' next_token then Inr []
                    else (case rest2 of
                            [] \<Rightarrow> Inl (Exception ''IndexError'')
                          | t2 # _ \<Rightarrow>
                              if is_op '')'' t2 then Inr []
                              else paren_loop start_line level
                                     (Some (tok_string t, tok_start next_token)) rest))
      | Some (statement, pos) \<Rightarrow>
          if fst (tok_end t) > start_line then Inr []
          else if tok_kind t = OP
          then (if tok_string t = '','' then
                  (if level = 1 then Inr [] else paren_loop start_line level st rest)
                else if tok_string t = ''('' then paren_loop start_line (level + 1) st rest
                else if tok_string t = '')'' then
                  (if level - 1 = 0
                   then (case rest of
                           [] \<Rightarrow> Inl (Exception ''IndexError'')
                         | next_token # _ \<Rightarrow>
                             if \<not> is_op '':'' next_token then Inr []
                             else Inr [(pos, ''A111 redundant parenthesis for '' @ statement
                                             @ '' statement'')])
                   else paren_loop start_line (level - 1) st rest)
                else paren_loop start_line level st rest)
          else paren_loop start_line level st rest)"

definition check_redundant_parenthesis :: "string \<Rightarrow> token list \<Rightarrow> exc + line_finding list" where
  "check_redundant_parenthesis logical_line tokens =
     (case tokens of
        [] \<Rightarrow> Inl (Exception ''IndexError'')
      | t0 # _ \<Rightarrow> paren_loop (fst (tok_start t0)) 0 None tokens)"

subsection \<open>Notions and example tokens for the properties of the token checks\<close>

text \<open>
  For the quote check: a string token whose prefix holds \<open>u\<close> or \<open>U\<close>; an \<open>ascii_eval\<close> for
  literals that are written as \<open>ascii\<close> prints them; and the tokens of the examples: the
  docstring \<open>u'doc'\<close> on line 2, and \<open>x = u'abc'\<close> on line 1.
\<close>

definition u_prefixed :: "token \<Rightarrow> bool" where
  "u_prefixed t =
     (tok_kind t = STRING
      \<and> (case match_string_literal (tok_string t) of
            Some (prefixes, quote, txt) \<Rightarrow> CHR ''u'' \<in> set (lower prefixes)
          | None \<Rightarrow> False))"

definition canonical :: "string \<Rightarrow> exc + string" where
  "canonical literal = Inr literal"

definition docstring_token :: token where
  "docstring_token =
     \<lparr>tok_kind = STRING, tok_string = ''u'' @ [CHR 0x27] @ ''doc'' @ [CHR 0x27],
      tok_start = (2, 4), tok_end = (2, 10),
      tok_line = ''    u'' @ [CHR 0x27] @ ''doc'' @ [CHR 0x27, CHR 0x0A]\<rparr>"

definition assign_tokens :: "token list" where
  "assign_tokens =
     (let l = ''x = u'' @ [CHR 0x27] @ ''abc'' @ [CHR 0x27, CHR 0x0A] in
      [\<lparr>tok_kind = NAME, tok_string = ''x'', tok_start = (1, 0), tok_end = (1, 1), tok_line = l\<rparr>,
       \<lparr>tok_kind = OP, tok_string = ''='', tok_start = (1, 2), tok_end = (1, 3), tok_line = l\<rparr>,
       \<lparr>tok_kind = STRING, tok_string = ''u'' @ [CHR 0x27] @ ''abc'' @ [CHR 0x27],
        tok_start = (1, 4), tok_end = (1, 10), tok_line = l\<rparr>,
       \<lparr>tok_kind = NEWLINE, tok_string = [CHR 0x0A], tok_start = (1, 10), tok_end = (1, 11),
        tok_line = l\<rparr>])"

text \<open>
  For the parenthesis check: an indentation token; the nesting level after a run of tokens
  read from a given level as the check counts it, by the parentheses alone, which is
  \<open>None\<close> when a comma stands at level 1 or a parenthesis closes level 1 among them; the start of a statement, \<open>if\<close>, \<open>elif\<close> or \<open>while\<close> followed by
  an opening parenthesis, after the indentation tokens of the line; and the tokens of
  \<open>if (x):\<close>, \<open>if (x, y):\<close>, \<open>if (x in [1, 2]):\<close> and of \<open>if (x\<close> continued by
  \<open>and y):\<close> on the next line.
\<close>

definition indent :: "token \<Rightarrow> bool" where
  "indent t = (tok_kind t = INDENT \<or> tok_kind t = DEDENT)"

fun inner_level :: "int \<Rightarrow> token list \<Rightarrow> int option" where
  "inner_level level [] = Some level"
| "inner_level level (t # ts) =
     (if indent t then inner_level level ts
      else if is_op '','' t then (if level = 1 then None else inner_level level ts)
      else if is_op ''('' t then inner_level (level + 1) ts
      else if is_op '')'' t then (if level - 1 = 0 then None else inner_level (level - 1) ts)
      else inner_level level ts)"

definition paren_statement :: "token list \<Rightarrow> token \<Rightarrow> token \<Rightarrow> bool" where
  "paren_statement ind keyword lp =
     (list_all indent ind \<and> tok_kind keyword = NAME
      \<and> tok_string keyword \<in> set [''if'', ''elif'', ''while''] \<and> is_op ''('' lp)"

definition tk :: "token_kind \<Rightarrow> string \<Rightarrow> int \<Rightarrow> int \<Rightarrow> int \<Rightarrow> string \<Rightarrow> token" where
  "tk k x row col col' l =
     \<lparr>tok_kind = k, tok_string = x, tok_start = (row, col), tok_end = (row, col'), tok_line = l\<rparr>"

definition if_x :: "token list" where
  "if_x =
     (let l = ''if (x):'' @ [CHR 0x0A] in
      [tk NAME ''if'' 1 0 2 l, tk OP ''('' 1 3 4 l, tk NAME ''x'' 1 4 5 l, tk OP '')'' 1 5 6 l,
       tk OP '':'' 1 6 7 l, tk NEWLINE [CHR 0x0A] 1 7 8 l])"

definition if_x_y :: "token list" where
  "if_x_y =
     (let l = ''if (x, y):'' @ [CHR 0x0A] in
      [tk NAME ''if'' 1 0 2 l, tk OP ''('' 1 3 4 l, tk NAME ''x'' 1 4 5 l, tk OP '','' 1 5 6 l,
       tk NAME ''y'' 1 7 8 l, tk OP '')'' 1 8 9 l, tk OP '':'' 1 9 10 l,
       tk NEWLINE [CHR 0x0A] 1 10 11 l])"

definition if_x_in_list :: "token list" where
  "if_x_in_list =
     (let l = ''if (x in [1, 2]):'' @ [CHR 0x0A] in
      [tk NAME ''if'' 1 0 2 l, tk OP ''('' 1 3 4 l, tk NAME ''x'' 1 4 5 l, tk NAME ''in'' 1 6 8 l,
       tk OP ''['' 1 9 10 l, tk NUMBER ''1'' 1 10 11 l, tk OP '','' 1 11 12 l,
       tk NUMBER ''2'' 1 13 14 l, tk OP '']'' 1 14 15 l, tk OP '')'' 1 15 16 l,
       tk OP '':'' 1 16 17 l, tk NEWLINE [CHR 0x0A] 1 17 18 l])"

definition if_x_and_y :: "token list" where
  "if_x_and_y =
     (let l1 = ''if (x'' @ [CHR 0x0A]; l2 = ''    and y):'' @ [CHR 0x0A] in
      [tk NAME ''if'' 1 0 2 l1, tk OP ''('' 1 3 4 l1, tk NAME ''x'' 1 4 5 l1,
       tk NL [CHR 0x0A] 1 5 6 l1, tk NAME ''and'' 2 4 7 l2, tk NAME ''y'' 2 8 9 l2,
       tk OP '')'' 2 9 10 l2, tk OP '':'' 2 10 11 l2, tk NEWLINE [CHR 0x0A] 2 11 12 l2])"

section \<open>Properties\<close>

subsection \<open>The loop of the block analysis\<close>

lemma block_step_leave_node:
  "leave_node (block_step d c i n st) = (if is_instance n LEAVE_BLOCK then Some n else leave_node st)"
  by (simp add: block_step_def Let_def split: option.splits)

lemma block_step_dead_code:
  "dead_code (block_step d c i n st) = (dead_code st \<or> leave_node st \<noteq> None)"
  by (auto simp add: block_step_def Let_def split: option.splits)

lemma block_step_pass_node:
  "pass_node (block_step d c i n st) = (if is_instance n [''Pass''] then Some n else pass_node st)"
  by (simp add: block_step_def Let_def split: option.splits)

lemma block_step_has_non_pass:
  "has_non_pass (block_step d c i n st) = (has_non_pass st \<or> \<not> is_instance n [''Pass''])"
  by (auto simp add: block_step_def Let_def split: option.splits)

lemma block_step_errs_A202:
  "filter (\<lambda>f. code f = ''A202'') (errs (block_step d c i n st)) =
     filter (\<lambda>f. code f = ''A202'') (errs st) @
       (case leave_node st of
          Some l \<Rightarrow> if dead_code st then [] else [(n, ''A202 dead code after '' @ get_statement l)]
        | None \<Rightarrow> [])"
  by (simp add: block_step_def Let_def code_def split: option.splits)

lemma block_step_errs_other:
  "k \<noteq> ''A202'' \<Longrightarrow> k \<noteq> ''A203'' \<Longrightarrow>
   filter (\<lambda>f. code f = k) (errs (block_step d c i n st)) = filter (\<lambda>f. code f = k) (errs st)"
  by (auto simp add: block_step_def Let_def code_def split: option.splits)

lemma block_loop_errs_other:
  "k \<noteq> ''A202'' \<Longrightarrow> k \<noteq> ''A203'' \<Longrightarrow>
   filter (\<lambda>f. code f = k) (errs (block_loop d c i ns st)) = filter (\<lambda>f. code f = k) (errs st)"
  by (induction ns arbitrary: i st) (simp_all add: block_step_errs_other)

lemma block_loop_dead:
  "dead_code st \<Longrightarrow>
   filter (\<lambda>f. code f = ''A202'') (errs (block_loop d c i ns st)) = filter (\<lambda>f. code f = ''A202'') (errs st)"
proof (induction ns arbitrary: i st)
  case Nil
  then show ?case by simp
next
  case (Cons n ns)
  have "dead_code (block_step d c i n st)" using Cons.prems by (simp add: block_step_dead_code)
  then show ?case using Cons.IH Cons.prems
    by (simp add: block_step_errs_A202 split: option.splits)
qed

lemma block_loop_left:
  "leave_node st = Some l \<Longrightarrow> \<not> dead_code st \<Longrightarrow>
   filter (\<lambda>f. code f = ''A202'') (errs (block_loop d c i ns st)) =
     filter (\<lambda>f. code f = ''A202'') (errs st) @
       (case ns of [] \<Rightarrow> [] | r # _ \<Rightarrow> [(r, ''A202 dead code after '' @ get_statement l)])"
proof (cases ns)
  case Nil
  then show ?thesis by simp
next
  case (Cons r rest)
  assume a: "leave_node st = Some l" "\<not> dead_code st"
  have "dead_code (block_step d c i r st)" using a by (simp add: block_step_dead_code)
  then show ?thesis using a Cons
    by (simp add: block_loop_dead block_step_errs_A202)
qed

lemma block_loop_A202:
  "leave_node st = None \<Longrightarrow> \<not> dead_code st \<Longrightarrow>
   filter (\<lambda>f. code f = ''A202'') (errs (block_loop d c i ns st)) =
     filter (\<lambda>f. code f = ''A202'') (errs st) @
       (case dropWhile (\<lambda>n. \<not> is_instance n LEAVE_BLOCK) ns of
          l # r # _ \<Rightarrow> [(r, ''A202 dead code after '' @ get_statement l)]
        | _ \<Rightarrow> [])"
proof (induction ns arbitrary: i st)
  case Nil
  then show ?case by simp
next
  case (Cons n ns)
  let ?st = "block_step d c i n st"
  have dc: "\<not> dead_code ?st" using Cons.prems by (simp add: block_step_dead_code)
  have er: "filter (\<lambda>f. code f = ''A202'') (errs ?st) = filter (\<lambda>f. code f = ''A202'') (errs st)"
    using Cons.prems by (simp add: block_step_errs_A202)
  show ?case
  proof (cases "is_instance n LEAVE_BLOCK")
    case True
    then have "leave_node ?st = Some n" by (simp add: block_step_leave_node)
    from block_loop_left [OF this dc] er True show ?thesis
      by (simp split: list.splits)
  next
    case False
    then have "leave_node ?st = None" using Cons.prems by (simp add: block_step_leave_node)
    from Cons.IH [OF this dc] er False show ?thesis by simp
  qed
qed

lemma block_loop_pass_node:
  "pass_node (block_loop d c i ns st) =
     (case filter (\<lambda>n. is_instance n [''Pass'']) ns of [] \<Rightarrow> pass_node st | ps \<Rightarrow> Some (last ps))"
  by (induction ns arbitrary: i st) (auto simp add: block_step_pass_node split: list.splits)

lemma block_loop_has_non_pass:
  "has_non_pass (block_loop d c i ns st) =
     (has_non_pass st \<or> (\<exists>n \<in> set ns. \<not> is_instance n [''Pass'']))"
  by (induction ns arbitrary: i st) (auto simp add: block_step_has_non_pass)

subsection \<open>Dead code\<close>

text \<open>
  C2: in every block the findings with code A202 are determined by the first statement of
  kind return, raise, continue or break: when a statement follows it, there is exactly one
  finding, attached to that following statement and naming the kind of the leaving
  statement; when it is the last statement, or there is none, there is no A202 finding.
\<close>

theorem dead_code_finding:
  "filter (\<lambda>f. code f = ''A202'') (visit_block nodes br nr ds cu []) =
     (case dropWhile (\<lambda>n. \<not> is_instance n LEAVE_BLOCK) nodes of
        l # r # _ \<Rightarrow> [(r, ''A202 dead code after '' @ get_statement l)]
      | _ \<Rightarrow> [])"
proof -
  let ?st0 = "\<lparr>pass_node = None, has_non_pass = False, leave_node = None,
               dead_code = False, errs = []\<rparr>"
  have "filter (\<lambda>f. code f = ''A202'') (errs (block_loop ds cu 0 nodes ?st0)) =
     (case dropWhile (\<lambda>n. \<not> is_instance n LEAVE_BLOCK) nodes of
        l # r # _ \<Rightarrow> [(r, ''A202 dead code after '' @ get_statement l)]
      | _ \<Rightarrow> [])"
    using block_loop_A202 [of ?st0 ds cu 0 nodes] by simp
  then show ?thesis
    by (simp add: visit_block_def Let_def code_def split: option.splits)
qed

text \<open>
  The blocks \<open>[raise X, a(), b()]\<close> and \<open>[x, raise X]\<close>: one A202 finding on \<open>a()\<close>, and none.
\<close>

theorem dead_code_finding_witness:
  "filter (\<lambda>f. code f = ''A202'')
     (visit_block
        [Node ''Raise'' 1 0 [(''exc'', FNode (Node ''Name'' 1 6 [(''id'', FVal (PStr ''X''))])),
                             (''cause'', FVal PNone)],
         Node ''Expr'' 2 0 [(''value'', FNode (Node ''Call'' 2 0
            [(''func'', FNode (Node ''Name'' 2 0 [(''id'', FVal (PStr ''a''))])),
             (''args'', FList []), (''keywords'', FList [])]))],
         Node ''Expr'' 3 0 [(''value'', FNode (Node ''Call'' 3 0
            [(''func'', FNode (Node ''Name'' 3 0 [(''id'', FVal (PStr ''b''))])),
             (''args'', FList []), (''keywords'', FList [])]))]]
        False True False False [])
   = [(Node ''Expr'' 2 0 [(''value'', FNode (Node ''Call'' 2 0
            [(''func'', FNode (Node ''Name'' 2 0 [(''id'', FVal (PStr ''a''))])),
             (''args'', FList []), (''keywords'', FList [])]))],
       ''A202 dead code after raise'')]
   \<and> filter (\<lambda>f. code f = ''A202'')
     (visit_block
        [Node ''Expr'' 1 0 [(''value'', FNode (Node ''Name'' 1 0 [(''id'', FVal (PStr ''x''))]))],
         Node ''Raise'' 2 0 [(''exc'', FNode (Node ''Name'' 2 6 [(''id'', FVal (PStr ''X''))])),
                             (''cause'', FVal PNone)]]
        False True False False [])
   = []"
  using dead_code_finding [of
        "[Node ''Raise'' 1 0 [(''exc'', FNode (Node ''Name'' 1 6 [(''id'', FVal (PStr ''X''))])),
                             (''cause'', FVal PNone)],
         Node ''Expr'' 2 0 [(''value'', FNode (Node ''Call'' 2 0
            [(''func'', FNode (Node ''Name'' 2 0 [(''id'', FVal (PStr ''a''))])),
             (''args'', FList []), (''keywords'', FList [])]))],
         Node ''Expr'' 3 0 [(''value'', FNode (Node ''Call'' 3 0
            [(''func'', FNode (Node ''Name'' 3 0 [(''id'', FVal (PStr ''b''))])),
             (''args'', FList []), (''keywords'', FList [])]))]]"
        False True False False]
    dead_code_finding [of
        "[Node ''Expr'' 1 0 [(''value'', FNode (Node ''Name'' 1 0 [(''id'', FVal (PStr ''x''))]))],
         Node ''Raise'' 2 0 [(''exc'', FNode (Node ''Name'' 2 6 [(''id'', FVal (PStr ''X''))])),
                             (''cause'', FVal PNone)]]"
        False True False False]
  by (simp add: is_instance_def LEAVE_BLOCK_def get_statement_def lower_def lower_char_def)

subsection \<open>Redundant pass and empty block\<close>

text \<open>
  C10: a block yields at most one finding with code A204 and at most one with code A205,
  however many pass statements it holds, and each is attached to the last pass statement of
  the block.  A204 needs \<open>nodes_required\<close> to be false or more than one statement; A205
  needs \<open>block_required\<close> to be false and every statement to be a pass.
\<close>

theorem pass_findings_on_last_pass:
  "length (filter (\<lambda>f. code f = ''A204'') (visit_block nodes br nr ds cu [])) \<le> 1
   \<and> length (filter (\<lambda>f. code f = ''A205'') (visit_block nodes br nr ds cu [])) \<le> 1
   \<and> filter (\<lambda>f. code f = ''A204'') (visit_block nodes br nr ds cu []) =
       (case filter (\<lambda>n. is_instance n [''Pass'']) nodes of
          [] \<Rightarrow> []
        | ps \<Rightarrow> if \<not> nr \<or> length nodes > 1
                then [(last ps, ''A204 redundant pass statement'')] else [])
   \<and> filter (\<lambda>f. code f = ''A205'') (visit_block nodes br nr ds cu []) =
       (case filter (\<lambda>n. is_instance n [''Pass'']) nodes of
          [] \<Rightarrow> []
        | ps \<Rightarrow> if \<not> br \<and> list_all (\<lambda>n. is_instance n [''Pass'']) nodes
                then [(last ps, ''A205 empty block'')] else [])"
proof -
  let ?st0 = "\<lparr>pass_node = None, has_non_pass = False, leave_node = None,
               dead_code = False, errs = []\<rparr>"
  have a: "filter (\<lambda>f. code f = ''A204'') (errs (block_loop ds cu 0 nodes ?st0)) = []"
    using block_loop_errs_other [of "''A204''" ds cu 0 nodes ?st0] by simp
  have b: "filter (\<lambda>f. code f = ''A205'') (errs (block_loop ds cu 0 nodes ?st0)) = []"
    using block_loop_errs_other [of "''A205''" ds cu 0 nodes ?st0] by simp
  have p: "pass_node (block_loop ds cu 0 nodes ?st0) =
     (case filter (\<lambda>n. is_instance n [''Pass'']) nodes of [] \<Rightarrow> None | ps \<Rightarrow> Some (last ps))"
    by (simp add: block_loop_pass_node split: list.splits)
  have h: "has_non_pass (block_loop ds cu 0 nodes ?st0) =
     (\<not> list_all (\<lambda>n. is_instance n [''Pass'']) nodes)"
    by (simp add: block_loop_has_non_pass list_all_iff)
  have c4: "filter (\<lambda>f. code f = ''A204'') (visit_block nodes br nr ds cu []) =
     (case filter (\<lambda>n. is_instance n [''Pass'']) nodes of
        [] \<Rightarrow> []
      | ps \<Rightarrow> if \<not> nr \<or> length nodes > 1
              then [(last ps, ''A204 redundant pass statement'')] else [])"
    using a p h
    by (simp add: visit_block_def Let_def code_def split: option.splits list.splits)
  have c5: "filter (\<lambda>f. code f = ''A205'') (visit_block nodes br nr ds cu []) =
     (case filter (\<lambda>n. is_instance n [''Pass'']) nodes of
        [] \<Rightarrow> []
      | ps \<Rightarrow> if \<not> br \<and> list_all (\<lambda>n. is_instance n [''Pass'']) nodes
              then [(last ps, ''A205 empty block'')] else [])"
    using b p h
    by (simp add: visit_block_def Let_def code_def split: option.splits list.splits)
  have l4: "length (filter (\<lambda>f. code f = ''A204'') (visit_block nodes br nr ds cu [])) \<le> 1"
    unfolding c4 by (simp split: list.splits)
  have l5: "length (filter (\<lambda>f. code f = ''A205'') (visit_block nodes br nr ds cu [])) \<le> 1"
    unfolding c5 by (simp split: list.splits)
  from l4 l5 c4 c5 show ?thesis by blast
qed

text \<open>
  The block \<open>[pass, pass]\<close> of an \<open>if\<close> without \<open>else\<close>: one A204 and one A205, both on the
  second pass.
\<close>

theorem pass_findings_on_last_pass_witness:
  "visit_block [Node ''Pass'' 2 4 [], Node ''Pass'' 3 4 []] False True False False []
   = [(Node ''Pass'' 3 4 [], ''A204 redundant pass statement''),
      (Node ''Pass'' 3 4 [], ''A205 empty block'')]
   \<and> filter (\<lambda>f. code f = ''A204'')
        (visit_block [Node ''Pass'' 2 4 [], Node ''Pass'' 3 4 []] False True False False [])
      = [(Node ''Pass'' 3 4 [], ''A204 redundant pass statement'')]
   \<and> filter (\<lambda>f. code f = ''A205'')
        (visit_block [Node ''Pass'' 2 4 [], Node ''Pass'' 3 4 []] False True False False [])
      = [(Node ''Pass'' 3 4 [], ''A205 empty block'')]"
  using pass_findings_on_last_pass
          [of "[Node ''Pass'' 2 4 [], Node ''Pass'' 3 4 []]" False True False False]
  by (simp add: is_instance_def visit_block_def block_step_def unused_expression_def
        LEAVE_BLOCK_def Let_def)

subsection \<open>The encoding declaration\<close>


text \<open>
  C9: the physical-line check returns nothing for a line whose number is greater than 2,
  whatever the line holds; a finding therefore implies a line number of at most 2, that is
  1 or 2 for the 1-based numbers the host passes.
\<close>

theorem encoding_only_first_two_lines:
  "2 < line_number \<Longrightarrow> check_non_default_encoding physical_line line_number = None"
  by (simp add: check_non_default_encoding_def)

theorem encoding_only_first_two_lines_witness:
  "(2::int) < 3 \<and> search_coding ''# -*- coding: latin-1 -*-''
   \<and> check_non_default_encoding ''# -*- coding: latin-1 -*-'' 1
       = Some (0, ''A303 non-default file encoding'')
   \<and> check_non_default_encoding ''# -*- coding: latin-1 -*-'' 2
       = Some (0, ''A303 non-default file encoding'')
   \<and> check_non_default_encoding ''# -*- coding: latin-1 -*-'' 3 = None"
  using encoding_only_first_two_lines [of 3 "''# -*- coding: latin-1 -*-''"]
  by (simp add: check_non_default_encoding_def search_coding_def is_space_def starts_with_def)

subsection \<open>Function bodies\<close>

lemmas eval_defs = check_ast_def module_def no_arguments_def visit.simps enter_def leave_def
     child_nodes_def descend_def finish_def visit_Module_def visit_FunctionDef_def
     visit_stored_name_def push_scope_def pop_scope_def leave_Module_def leave_FunctionDef_def
     block_def visit_block_def block_step_def unused_expression_def is_instance_def field_instance_def
     get_nodes_def get_list_def get_field_def get_str_def append_error_def LEAVE_BLOCK_def Let_def
     ESSENTIAL_BUILTINS_def builtins_dir_def

text \<open>
  C1, as stated, fails: a function body that is exactly one pass statement yields no
  finding at all, since \<open>visit_FunctionDef\<close> calls the block analysis with
  \<open>block_required=True\<close> (no A205) and a single statement is not redundant (no A204).
\<close>

theorem function_body_pass_counterexample:
  "check_ast py_eval (module [def_pass]) = Inr []"
  by (simp add: eval_defs def_pass_def)


lemma stored_name_errors:
  "visit_stored_name n name s = Inr s1 \<Longrightarrow>
   filter (\<lambda>f. code f = ''A204'' \<or> code f = ''A205'') (errors s1)
   = filter (\<lambda>f. code f = ''A204'' \<or> code f = ''A205'') (errors s)"
  unfolding visit_stored_name_def append_error_def Let_def
  by (cases "scope_stack s") (auto simp add: code_def)

lemma block_single_pass:
  "is_instance p [''Pass''] \<Longrightarrow> visit_block [p] True True True False es = es"
  by (simp add: visit_block_def block_step_def Let_def unused_expression_def is_instance_def)

lemma block_pass_return:
  "is_instance p [''Pass''] \<Longrightarrow> is_instance r [''Return''] \<Longrightarrow>
   visit_block [p, r] True True True False es = es @ [(p, ''A204 redundant pass statement'')]"
  by (simp add: visit_block_def block_step_def Let_def unused_expression_def is_instance_def
        LEAVE_BLOCK_def)

text \<open>
  C1, amended: whenever \<open>visit_FunctionDef\<close> runs on a function whose body is exactly one pass
  statement, it adds no A204 and no A205 finding; on a body \<open>[pass, return ...]\<close> it adds
  exactly one A204 finding, on the pass, and no A205.
\<close>

theorem function_body_pass:
  assumes "visit_FunctionDef n s = Inr s'"
    and "is_instance p [''Pass'']" and "is_instance r [''Return'']"
  shows "(get_nodes n ''body'' = [p] \<longrightarrow>
            filter (\<lambda>f. code f = ''A204'' \<or> code f = ''A205'') (errors s')
            = filter (\<lambda>f. code f = ''A204'' \<or> code f = ''A205'') (errors s))
       \<and> (get_nodes n ''body'' = [p, r] \<longrightarrow>
            filter (\<lambda>f. code f = ''A204'' \<or> code f = ''A205'') (errors s')
            = filter (\<lambda>f. code f = ''A204'' \<or> code f = ''A205'') (errors s)
              @ [(p, ''A204 redundant pass statement'')])"
proof -
  from assms(1) obtain s1 where
    s1: "visit_stored_name n (get_str n ''name'') s = Inr s1"
    and s': "s' = push_scope n (block (get_nodes n ''body'') True True True False s1)"
    by (auto simp add: visit_FunctionDef_def split: sum.splits)
  note e1 = stored_name_errors [OF s1]
  show ?thesis using e1
    by (simp add: s' push_scope_def block_def block_single_pass [OF assms(2)]
          block_pass_return [OF assms(2) assms(3)] code_def)
qed

theorem function_body_pass_witness:
  "visit_FunctionDef def_pass
     \<lparr>errors = [],
      scope_stack = [\<lparr>scope_node = module [def_pass], names = {}, globals = []\<rparr>]\<rparr>
     = Inr \<lparr>errors = [],
            scope_stack = [\<lparr>scope_node = def_pass, names = {}, globals = []\<rparr>,
                           \<lparr>scope_node = module [def_pass], names = {''f''}, globals = []\<rparr>]\<rparr>
   \<and> get_nodes def_pass ''body'' = [Node ''Pass'' 2 4 []]
   \<and> check_ast py_eval (module [def_pass_return])
       = Inr [(2, 4, ''A204 redundant pass statement'', PNone)]"
proof -
  have v: "visit_FunctionDef def_pass
     \<lparr>errors = [],
      scope_stack = [\<lparr>scope_node = module [def_pass], names = {}, globals = []\<rparr>]\<rparr>
     = Inr \<lparr>errors = [],
            scope_stack = [\<lparr>scope_node = def_pass, names = {}, globals = []\<rparr>,
                           \<lparr>scope_node = module [def_pass], names = {''f''}, globals = []\<rparr>]\<rparr>"
    by (simp add: eval_defs def_pass_def)
  have b: "get_nodes def_pass ''body'' = [Node ''Pass'' 2 4 []]"
    by (simp add: eval_defs def_pass_def)
  have c: "check_ast py_eval (module [def_pass_return])
       = Inr [(2, 4, ''A204 redundant pass statement'', PNone)]"
    by (simp add: eval_defs def_pass_return_def)
  have p: "is_instance (Node ''Pass'' 2 4 []) [''Pass'']"
    and r: "is_instance (Node ''Return'' 3 4 []) [''Return'']"
    by (simp_all add: is_instance_def)
  from function_body_pass [OF v p r] v b c show ?thesis by blast
qed

subsection \<open>The constant evaluator\<close>

lemmas eval_eval = evaluate_def name_load_def num_def literal_value_def load_name_def
  call_builtin_def hash_namespace_def const_namespace_def builtins_dir_def builtin_value_def
  get_field_def get_list_def get_str_def

text \<open>
  C5, as stated, fails: \<open>except Exception\<close> does not catch \<open>SystemExit\<close>.  Folding the key of
  \<open>{exit(): 1}\<close> in the namespace of the duplicate-key check raises \<open>SystemExit\<close> out of
  \<open>evaluate\<close>.
\<close>

theorem evaluate_propagates_counterexample:
  "fst (evaluate py_eval (FNode call_exit) hash_namespace) = Inl (BaseExceptionOnly ''SystemExit'')"
  by (simp add: eval_eval call_exit_def)

text \<open>
  C5, amended: when the evaluation returns, \<open>evaluate\<close> returns its value; when it raises an
  instance of \<open>Exception\<close>, \<open>evaluate\<close> returns \<open>VOLATILE\<close>; when it raises an exception
  outside \<open>Exception\<close>, \<open>evaluate\<close> raises it to the caller.  So \<open>evaluate\<close> returns a value or
  \<open>VOLATILE\<close> whenever the evaluation does not raise an exception outside \<open>Exception\<close>.
\<close>

theorem evaluate_catches_exceptions:
  "(fst (ev node ns) = Returns v \<longrightarrow> fst (evaluate ev node ns) = Inr (Value v))
   \<and> (fst (ev node ns) = Raises (Exception c) \<longrightarrow> fst (evaluate ev node ns) = Inr VOLATILE)
   \<and> (fst (ev node ns) = Raises (BaseExceptionOnly c)
        \<longrightarrow> fst (evaluate ev node ns) = Inl (BaseExceptionOnly c))
   \<and> ((\<forall>b. fst (ev node ns) \<noteq> Raises (BaseExceptionOnly b))
        \<longrightarrow> (\<exists>r. fst (evaluate ev node ns) = Inr r))"
  by (cases "ev node ns" rule: prod.exhaust; cases "fst (ev node ns)")
     (auto simp add: evaluate_def split: exc.splits)

theorem evaluate_catches_exceptions_witness:
  "fst (py_eval (FNode (name_load ''x'' 1 8)) const_namespace) = Raises (Exception ''NameError'')
   \<and> fst (evaluate py_eval (FNode (name_load ''x'' 1 8)) const_namespace) = Inr VOLATILE
   \<and> fst (py_eval (FNode (num 5 1 3)) const_namespace) = Returns (PInt 5)
   \<and> fst (evaluate py_eval (FNode (num 5 1 3)) const_namespace) = Inr (Value (PInt 5))"
  using evaluate_catches_exceptions [of py_eval "FNode (name_load ''x'' 1 8)" const_namespace
          "PInt 5" "''NameError''"]
        evaluate_catches_exceptions [of py_eval "FNode (num 5 1 3)" const_namespace
          "PInt 5" "''NameError''"]
  by (simp add: eval_eval)

subsection \<open>Yoda conditions\<close>

lemma yoda_Inr:
  "yoda ev cf l r = Inr y \<Longrightarrow>
   y = (cf \<and> is_const ev l = Inr True \<and> is_const ev r = Inr False)"
  by (auto simp add: yoda_def split: if_splits sum.splits bool.splits)

lemma compare_loop_A103:
  "compare_loop ev single left pairs s = Inr s' \<Longrightarrow>
   filter (\<lambda>f. code f = ''A103'') (errors s') =
     filter (\<lambda>f. code f = ''A103'') (errors s) @
       map (\<lambda>(l, op, r). (as_node l, ''A103 yoda condition''))
         (filter (\<lambda>(l, op, r). consts_first single op
                                 \<and> is_const ev l = Inr True \<and> is_const ev r = Inr False)
            (zip (left # map snd pairs) pairs))"
proof (induction pairs arbitrary: left s)
  case Nil
  then show ?case by simp
next
  case (Cons p pairs)
  obtain op right where p: "p = (op, right)" by (cases p)
  let ?cf = "consts_first single op"
  let ?s1 = "if field_instance op [''In'', ''NotIn''] \<and> field_instance right [''Tuple'', ''List'']
             then append_error s (as_node right) ''A102 use sets for distinct unordered data''
             else s"
  from Cons.prems obtain y where
    y: "yoda ev ?cf left right = Inr y"
    and rest: "compare_loop ev single right pairs
                 (if y then append_error ?s1 (as_node left) ''A103 yoda condition'' else ?s1) = Inr s'"
    by (auto simp add: p Let_def consts_first_def split: sum.splits)
  have s1: "filter (\<lambda>f. code f = ''A103'') (errors ?s1) = filter (\<lambda>f. code f = ''A103'') (errors s)"
    by (simp add: append_error_def code_def)
  from Cons.IH [OF rest] yoda_Inr [OF y] s1 show ?case
    by (simp add: p append_error_def code_def)
qed


text \<open>
  C3: when \<open>visit_Compare\<close> returns, the A103 findings it adds are, in order, one for each
  operator of the chain that is an equality or identity operator, or the only operator of
  the chain and not a membership test, whose left operand folds to a constant (in the
  namespace that knows only \<open>True\<close>, \<open>False\<close> and \<open>None\<close>) and whose right operand does not;
  each is attached to that left operand.
\<close>

theorem yoda_findings:
  assumes "visit_Compare ev n s = Inr s'"
  shows "filter (\<lambda>f. code f = ''A103'') (errors s') =
     filter (\<lambda>f. code f = ''A103'') (errors s) @
       map (\<lambda>(l, op, r). (as_node l, ''A103 yoda condition''))
         (filter (\<lambda>(l, op, r). consts_first (length (get_list n ''ops'') = 1) op
                                 \<and> is_const ev l = Inr True \<and> is_const ev r = Inr False)
            (zip (get_field n ''left''
                    # map snd (zip (get_list n ''ops'') (get_list n ''comparators'')))
               (zip (get_list n ''ops'') (get_list n ''comparators''))))"
  using assms unfolding visit_Compare_def by (rule compare_loop_A103)

lemmas visit_defs = eval_defs eval_eval visit_If_def check_redundant_else_def visit_Compare_def
  yoda_def is_const_def visit_Call_def get_identifier_def visit_Name_def check_deprecated_def
  in_names_def format_name_def DISCOURAGED_APIS_def as_node_def sub_def format_field_def
  call_f_def compare_def if_compare_def

text \<open>
  \<open>if 5 == x:\<close> yields A103 at the literal \<open>5\<close> (line 1, column 3); \<open>if x == 5:\<close> and
  \<open>if 5 == 6:\<close> yield nothing.
\<close>

theorem yoda_findings_witness:
  "visit_Compare py_eval (compare (num 5 1 3) ''Eq'' (name_load ''x'' 1 8))
       \<lparr>errors = [], scope_stack = []\<rparr>
     = Inr \<lparr>errors = [(num 5 1 3, ''A103 yoda condition'')], scope_stack = []\<rparr>
   \<and> check_ast py_eval (module [if_compare (num 5 1 3) ''Eq'' (name_load ''x'' 1 8)])
       = Inr [(1, 3, ''A103 yoda condition'', PNone)]
   \<and> check_ast py_eval (module [if_compare (name_load ''x'' 1 3) ''Eq'' (num 5 1 8)]) = Inr []
   \<and> check_ast py_eval (module [if_compare (num 5 1 3) ''Eq'' (num 6 1 8)]) = Inr []"
proof -
  have v: "visit_Compare py_eval (compare (num 5 1 3) ''Eq'' (name_load ''x'' 1 8))
       \<lparr>errors = [], scope_stack = []\<rparr>
     = Inr \<lparr>errors = [(num 5 1 3, ''A103 yoda condition'')], scope_stack = []\<rparr>"
    by (simp add: visit_defs)
  have a: "check_ast py_eval (module [if_compare (num 5 1 3) ''Eq'' (name_load ''x'' 1 8)])
       = Inr [(1, 3, ''A103 yoda condition'', PNone)]"
    by (simp add: visit_defs)
  have b: "check_ast py_eval (module [if_compare (name_load ''x'' 1 3) ''Eq'' (num 5 1 8)]) = Inr []"
    by (simp add: visit_defs)
  have c: "check_ast py_eval (module [if_compare (num 5 1 3) ''Eq'' (num 6 1 8)]) = Inr []"
    by (simp add: visit_defs)
  from yoda_findings [OF v] v a b c show ?thesis by blast
qed

subsection \<open>Duplicate keys\<close>

lemma py_eq_refl: "py_eq k k"
  by (simp add: py_eq_def)

lemma py_eq_sym: "py_eq a b \<Longrightarrow> py_eq b a"
  by (simp add: py_eq_def)







subsection \<open>The scope stack\<close>

lemma stack_append_error [simp]: "scope_stack (append_error s n m) = scope_stack s"
  by (simp add: append_error_def)

lemma stack_block [simp]: "scope_stack (block ns br nr ds cu s) = scope_stack s"
  by (simp add: block_def)

lemma stack_visit_iter [simp]: "scope_stack (visit_iter f s) = scope_stack s"
  by (simp add: visit_iter_def)

lemma stack_check_deprecated [simp]: "scope_stack (check_deprecated n name s) = scope_stack s"
  by (simp add: check_deprecated_def split: option.splits)
























subsection \<open>The u prefix\<close>

lemma code_A112: "code (p, A112) = ''A112''"
  by (simp add: code_def A112_def)

lemma quote_findings_no_A112:
  "quote_findings major ae prev cs first t prefixes quote txt = Inr q \<Longrightarrow>
   filter (\<lambda>f. code f = ''A112'') q = []"
  by (auto simp add: quote_findings_def Let_def code_def split: if_splits sum.splits)

lemma quotes_loop_A112:
  "quotes_loop major ae prev cs first tokens = (found, None) \<Longrightarrow>
   filter (\<lambda>f. code f = ''A112'') found = map (\<lambda>t. (tok_start t, A112)) (filter u_prefixed tokens)"
proof (induction tokens arbitrary: first found)
  case Nil
  then show ?case by simp
next
  case (Cons t ts)
  show ?case
  proof (cases "tok_kind t = INDENT \<or> tok_kind t = DEDENT")
    case True
    with Cons.prems have "quotes_loop major ae prev cs first ts = (found, None)" by simp
    from Cons.IH [OF this] True show ?thesis by (auto simp add: u_prefixed_def)
  next
    case False
    show ?thesis
    proof (cases "tok_kind t = STRING")
      case no_string: False
      with False Cons.prems have "quotes_loop major ae prev cs False ts = (found, None)" by simp
      from Cons.IH [OF this] no_string show ?thesis by (simp add: u_prefixed_def)
    next
      case True
      from Cons.prems False True obtain prefixes0 quote tx where
        m: "match_string_literal (tok_string t) = Some (prefixes0, quote, tx)"
        by (cases "match_string_literal (tok_string t)") auto
      let ?u = "if CHR ''u'' \<in> set (lower prefixes0) then [(tok_start t, A112)] else []"
      from Cons.prems False True m obtain q rest where
        q: "quote_findings major ae prev cs first t (lower prefixes0) quote tx = Inr q"
        and r: "quotes_loop major ae prev cs False ts = (rest, None)"
        and f: "found = ?u @ q @ rest"
        by (auto simp add: Let_def split: sum.splits prod.splits)
      from Cons.IH [OF r] quote_findings_no_A112 [OF q] f m True show ?thesis
        by (simp add: u_prefixed_def code_A112)
    qed
  qed
qed

text \<open>
  C7, as stated, fails: the u prefix is tested before the tests for a docstring and for a
  multi-line literal, so a u-prefixed docstring is flagged.
\<close>

theorem u_prefix_docstring_counterexample:
  "check_quotes 3 canonical [] [docstring_token] ''def f():'' Map.empty
     = ([((2, 4), A112)], None, Map.empty)"
  by (simp add: check_quotes_def docstring_token_def match_string_literal_def try_quote_def
        match_tail_def is_rub_def is_quote_def lower_def lower_char_def quote_findings_def
        after_def_or_blank_def starts_with_def is_space_def Let_def)

text \<open>
  C7, amended: when \<open>check_quotes\<close> ends without an exception, its A112 findings are
  exactly one for each string token whose prefix holds \<open>u\<close> or \<open>U\<close>, at the start of that
  token and in the order of the tokens, whether or not the token is a docstring or spans
  several lines; a string token without that prefix gets none.
\<close>

theorem u_prefix_findings:
  assumes "check_quotes major ascii_eval logical_line tokens previous_logical checker_state
             = (found, None, checker_state')"
  shows "filter (\<lambda>f. code f = ''A112'') found
           = map (\<lambda>t. (tok_start t, A112)) (filter u_prefixed tokens)"
  using assms
  by (auto simp add: check_quotes_def Let_def split: prod.splits dest: quotes_loop_A112)

theorem u_prefix_findings_witness:
  "check_quotes 3 canonical [] assign_tokens [] Map.empty = ([((1, 4), A112)], None, Map.empty)
   \<and> filter u_prefixed assign_tokens
     = [\<lparr>tok_kind = STRING, tok_string = ''u'' @ [CHR 0x27] @ ''abc'' @ [CHR 0x27],
         tok_start = (1, 4), tok_end = (1, 10),
         tok_line = ''x = u'' @ [CHR 0x27] @ ''abc'' @ [CHR 0x27, CHR 0x0A]\<rparr>]"
proof -
  have c: "check_quotes 3 canonical [] assign_tokens [] Map.empty
             = ([((1, 4), A112)], None, Map.empty)"
    by (simp add: check_quotes_def assign_tokens_def match_string_literal_def try_quote_def
          match_tail_def is_rub_def is_quote_def lower_def lower_char_def quote_findings_def
          after_def_or_blank_def starts_with_def is_space_def canonical_def Let_def)
  have u: "filter u_prefixed assign_tokens
     = [\<lparr>tok_kind = STRING, tok_string = ''u'' @ [CHR 0x27] @ ''abc'' @ [CHR 0x27],
         tok_start = (1, 4), tok_end = (1, 10),
         tok_line = ''x = u'' @ [CHR 0x27] @ ''abc'' @ [CHR 0x27, CHR 0x0A]\<rparr>]"
    by (simp add: u_prefixed_def assign_tokens_def match_string_literal_def try_quote_def
          match_tail_def is_rub_def is_quote_def lower_def lower_char_def Let_def)
  from u_prefix_findings [OF c] c u show ?thesis by blast
qed

subsection \<open>Redundant parentheses\<close>

lemma paren_loop_skip:
  "indent t \<Longrightarrow> paren_loop sl level st (t # ts) = paren_loop sl level st ts"
  by (simp add: indent_def)

lemma paren_loop_no_statement:
  "\<not> indent t \<Longrightarrow> tok_kind t \<noteq> NAME \<or> tok_string t \<notin> set [''if'', ''elif'', ''while''] \<Longrightarrow>
   paren_loop sl level None (t # ts) = Inr []"
  by (simp add: indent_def)

lemma paren_loop_statement:
  assumes "\<not> indent t" and "tok_kind t = NAME"
    and "tok_string t \<in> set [''if'', ''elif'', ''while'']"
  shows "paren_loop sl level None (t # ts) =
     (case ts of
        [] \<Rightarrow> Inl (Exception ''IndexError'')
      | nx # rest2 \<Rightarrow>
          if \<not> is_op ''('' nx then Inr []
          else (case rest2 of
                  [] \<Rightarrow> Inl (Exception ''IndexError'')
                | t2 # _ \<Rightarrow>
                    if is_op '')'' t2 then Inr []
                    else paren_loop sl level (Some (tok_string t, tok_start nx)) ts))"
proof -
  have "\<not> (tok_kind t \<noteq> NAME \<or> tok_string t \<notin> set [''if'', ''elif'', ''while''])"
    using assms(2,3) by blast
  then show ?thesis
    using assms(1) unfolding indent_def paren_loop.simps(2) [of sl level None t ts]
    by (simp only: if_False if_True option.case)
qed

lemma paren_loop_scan:
  "\<not> indent t \<Longrightarrow>
   paren_loop sl level (Some (stm, pos)) (t # ts) =
     (if fst (tok_end t) > sl then Inr []
      else if is_op '','' t
      then (if level = 1 then Inr [] else paren_loop sl level (Some (stm, pos)) ts)
      else if is_op ''('' t then paren_loop sl (level + 1) (Some (stm, pos)) ts
      else if is_op '')'' t
      then (if level - 1 = 0
            then (case ts of
                    [] \<Rightarrow> Inl (Exception ''IndexError'')
                  | nx # _ \<Rightarrow>
                      if \<not> is_op '':'' nx then Inr []
                      else Inr [(pos, ''A111 redundant parenthesis for '' @ stm @ '' statement'')])
            else paren_loop sl (level - 1) (Some (stm, pos)) ts)
      else paren_loop sl level (Some (stm, pos)) ts)"
  by (simp add: indent_def is_op_def)

lemma paren_loop_indents:
  "list_all indent ind \<Longrightarrow> paren_loop sl level st (ind @ ts) = paren_loop sl level st ts"
  by (induction ind) (simp_all add: paren_loop_skip del: paren_loop.simps)

lemma inner_level_step:
  "inner_level level (t # inner) = Some level' \<Longrightarrow> \<not> indent t \<Longrightarrow>
   fst (tok_end t) \<le> sl \<Longrightarrow>
   \<exists>l. inner_level l inner = Some level'
       \<and> paren_loop sl level (Some (stm, pos)) (t # ts) = paren_loop sl l (Some (stm, pos)) ts"
  by (auto simp add: paren_loop_scan simp del: paren_loop.simps split: if_splits)

lemma paren_loop_inner:
  "list_all (\<lambda>t. fst (tok_end t) \<le> sl) inner \<Longrightarrow> inner_level level inner = Some level' \<Longrightarrow>
   paren_loop sl level (Some (stm, pos)) (inner @ ts) = paren_loop sl level' (Some (stm, pos)) ts"
proof (induction inner arbitrary: level)
  case Nil
  then show ?case by simp
next
  case (Cons t inner)
  from Cons.prems(1) have line: "fst (tok_end t) \<le> sl"
    and rest: "list_all (\<lambda>t. fst (tok_end t) \<le> sl) inner"
    by simp_all
  show ?case
  proof (cases "indent t")
    case True
    with Cons.prems(2) have "inner_level level inner = Some level'" by simp
    from Cons.IH [OF rest this] True show ?thesis
      by (simp add: paren_loop_skip del: paren_loop.simps)
  next
    case False
    from inner_level_step [OF Cons.prems(2) False line, of stm pos "inner @ ts"]
    obtain l where l: "inner_level l inner = Some level'"
      and s: "paren_loop sl level (Some (stm, pos)) (t # inner @ ts)
              = paren_loop sl l (Some (stm, pos)) (inner @ ts)"
      by blast
    from Cons.IH [OF rest l] s show ?thesis by simp
  qed
qed

lemma paren_loop_inner_any:
  "inner_level level inner = Some level' \<Longrightarrow>
   paren_loop sl level (Some (stm, pos)) (inner @ ts) = Inr []
   \<or> paren_loop sl level (Some (stm, pos)) (inner @ ts) = paren_loop sl level' (Some (stm, pos)) ts"
proof (induction inner arbitrary: level)
  case Nil
  then show ?case by simp
next
  case (Cons t inner)
  show ?case
  proof (cases "indent t")
    case True
    with Cons.prems have "inner_level level inner = Some level'" by simp
    from Cons.IH [OF this] True show ?thesis
      by (simp add: paren_loop_skip del: paren_loop.simps)
  next
    case False
    show ?thesis
    proof (cases "fst (tok_end t) \<le> sl")
      case True
      from inner_level_step [OF Cons.prems False True, of stm pos "inner @ ts"]
      obtain l where l: "inner_level l inner = Some level'"
        and s: "paren_loop sl level (Some (stm, pos)) (t # inner @ ts)
                = paren_loop sl l (Some (stm, pos)) (inner @ ts)"
        by blast
      from Cons.IH [OF l] s show ?thesis by simp
    next
      case False
      with \<open>\<not> indent t\<close> show ?thesis
        by (simp add: paren_loop_scan del: paren_loop.simps)
    qed
  qed
qed


lemma paren_loop_at_most_one:
  "paren_loop sl level st ts = Inr fs \<Longrightarrow> length fs \<le> 1"
proof (induction ts arbitrary: level st)
  case Nil
  then show ?case by simp
next
  case (Cons t ts)
  note prems = Cons.prems and IH = Cons.IH
  show ?case
  proof (cases "indent t")
    case True
    with prems have "paren_loop sl level st ts = Inr fs"
      by (simp add: paren_loop_skip del: paren_loop.simps)
    then show ?thesis by (rule IH)
  next
    case False
    show ?thesis
    proof (cases st)
      case None
      show ?thesis
      proof (cases "tok_kind t \<noteq> NAME \<or> tok_string t \<notin> set [''if'', ''elif'', ''while'']")
        case True
        from prems paren_loop_no_statement [OF False True, of sl level ts] None
        have "fs = []" by simp
        then show ?thesis by simp
      next
        case kw: False
        then have k: "tok_kind t = NAME" "tok_string t \<in> set [''if'', ''elif'', ''while'']"
          by blast+
        from prems None paren_loop_statement [OF False k, of sl level ts]
        have "fs = [] \<or> (\<exists>st'. paren_loop sl level st' ts = Inr fs)"
          by (auto simp del: paren_loop.simps split: list.splits if_splits)
        with IH show ?thesis by auto
      qed
    next
      case (Some a)
      obtain stm pos where a: "a = (stm, pos)" by (cases a)
      from prems Some a paren_loop_scan [OF False, of sl level stm pos ts]
      have "length fs \<le> 1 \<or> (\<exists>l. paren_loop sl l st ts = Inr fs)"
        by (auto simp del: paren_loop.simps split: list.splits if_splits)
      with IH show ?thesis by auto
    qed
  qed
qed


lemma check_statement:
  assumes "paren_statement ind keyword lp" and "body \<noteq> []"
    and "tokens = ind @ keyword # lp # body"
  shows "check_redundant_parenthesis logical_line tokens =
     (if is_op '')'' (hd body) \<or> fst (tok_end lp) > fst (tok_start (hd tokens)) then Inr []
      else paren_loop (fst (tok_start (hd tokens))) 1
             (Some (tok_string keyword, tok_start lp)) body)"
proof -
  let ?sl = "fst (tok_start (hd tokens))"
  from assms(1) have ind: "list_all indent ind" and k: "tok_kind keyword = NAME"
    "tok_string keyword \<in> set [''if'', ''elif'', ''while'']" and lp: "is_op ''('' lp"
    by (simp_all add: paren_statement_def)
  from k(1) have nk: "\<not> indent keyword" by (simp add: indent_def)
  from lp have nl: "\<not> indent lp" "\<not> is_op '','' lp" by (simp_all add: indent_def is_op_def)
  obtain b body' where body: "body = b # body'" using assms(2) by (cases body) auto
  have "tokens \<noteq> []" using assms(3) by simp
  then have "check_redundant_parenthesis logical_line tokens = paren_loop ?sl 0 None tokens"
    by (cases tokens) (simp_all add: check_redundant_parenthesis_def del: paren_loop.simps)
  also have "\<dots> = paren_loop ?sl 0 None (keyword # lp # body)"
    unfolding assms(3) [symmetric, THEN arg_cong [where f = "\<lambda>x. fst (tok_start (hd x))"]]
    using paren_loop_indents [OF ind, of ?sl 0 None "keyword # lp # body"] assms(3) by simp
  also have "\<dots> = (if is_op '')'' b then Inr []
                   else paren_loop ?sl 0 (Some (tok_string keyword, tok_start lp)) (lp # body))"
    using paren_loop_statement [OF nk k, of ?sl 0 "lp # body"] lp body
    by (simp del: paren_loop.simps)
  also have "\<dots> = (if is_op '')'' b \<or> fst (tok_end lp) > ?sl then Inr []
                   else paren_loop ?sl 1 (Some (tok_string keyword, tok_start lp)) body)"
    using paren_loop_scan [OF nl(1), of ?sl 0 "tok_string keyword" "tok_start lp" body] lp nl(2)
    by (simp del: paren_loop.simps)
  finally show ?thesis by (simp add: body)
qed


lemma inner_level_close:
  "is_op '')'' b \<Longrightarrow> inner_level 1 (b # inner) = None"
  by (simp add: is_op_def indent_def)

lemma inner_level_head:
  "inner_level 1 (b # inner) = Some l \<Longrightarrow> \<not> is_op '')'' b"
  using inner_level_close [of b inner] by auto

lemma paren_A111:
  assumes "paren_statement ind keyword lp"
    and "tokens = ind @ [keyword, lp] @ inner @ [rp, colon] @ rest"
    and "inner \<noteq> []" and "inner_level 1 inner = Some 1"
    and "list_all (\<lambda>t. fst (tok_end t) \<le> fst (tok_start (hd tokens))) (lp # inner @ [rp])"
    and "is_op '')'' rp" and "is_op '':'' colon"
  shows "check_redundant_parenthesis logical_line tokens
         = Inr [(tok_start lp, ''A111 redundant parenthesis for '' @ tok_string keyword
                               @ '' statement'')]"
proof -
  let ?sl = "fst (tok_start (hd tokens))"
  let ?st = "Some (tok_string keyword, tok_start lp)"
  let ?body = "inner @ rp # colon # rest"
  obtain b inner' where inner: "inner = b # inner'" using assms(3) by (cases inner) auto
  from assms(5) have l: "\<not> fst (tok_end lp) > ?sl" "list_all (\<lambda>t. fst (tok_end t) \<le> ?sl) inner"
    "\<not> fst (tok_end rp) > ?sl"
    by (simp_all add: not_less)
  from assms(6) have rp: "\<not> indent rp" "\<not> is_op '','' rp" "\<not> is_op ''('' rp"
    by (simp_all add: indent_def is_op_def)
  have tokens: "tokens = ind @ keyword # lp # ?body" unfolding assms(2) by simp
  have body: "?body \<noteq> []" by simp
  have "hd ?body = b" unfolding inner by simp
  moreover have "\<not> is_op '')'' b" using inner_level_head assms(4) unfolding inner by blast
  ultimately have open_body: "\<not> (is_op '')'' (hd ?body) \<or> fst (tok_end lp) > ?sl)"
    using l(1) by simp
  have "check_redundant_parenthesis logical_line tokens = paren_loop ?sl 1 ?st ?body"
    unfolding check_statement [OF assms(1) body tokens, of logical_line] if_not_P [OF open_body]
    by (rule refl)
  also have "\<dots> = paren_loop ?sl 1 ?st (rp # colon # rest)"
    by (rule paren_loop_inner [OF l(2) assms(4)])
  also have "\<dots> = Inr [(tok_start lp, ''A111 redundant parenthesis for '' @ tok_string keyword
                                        @ '' statement'')]"
    unfolding paren_loop_scan [OF rp(1)] using rp(2,3) assms(6,7) l(3)
    by simp
  finally show ?thesis .
qed

lemma paren_stops:
  assumes "paren_statement ind keyword lp"
    and "tokens = ind @ [keyword, lp] @ inner @ [t] @ rest"
    and "inner_level 1 inner = Some l" and "\<not> indent t"
    and "is_op '','' t \<and> l = 1 \<or> fst (tok_end t) > fst (tok_start (hd tokens))"
  shows "check_redundant_parenthesis logical_line tokens = Inr []"
proof -
  let ?sl = "fst (tok_start (hd tokens))"
  let ?st = "Some (tok_string keyword, tok_start lp)"
  let ?body = "inner @ t # rest"
  have t: "paren_loop ?sl l ?st (t # rest) = Inr []"
    unfolding paren_loop_scan [OF assms(4)] using assms(5) by auto
  have stop: "paren_loop ?sl 1 ?st ?body = Inr []"
    using paren_loop_inner_any [OF assms(3), of ?sl "tok_string keyword" "tok_start lp" "t # rest"]
    unfolding t by blast
  have tokens: "tokens = ind @ keyword # lp # ?body" unfolding assms(2) by simp
  have body: "?body \<noteq> []" by simp
  show ?thesis
    unfolding check_statement [OF assms(1) body tokens, of logical_line] stop by simp
qed

text \<open>
  What the check returns, in terms of the level it counts (parentheses only): at most one
  finding; an A111 finding, at the opening parenthesis, for a line that starts (after
  indentation tokens) with \<open>if\<close>, \<open>elif\<close> or \<open>while\<close> and an opening parenthesis, whose
  content is not empty, has no comma at level 1 and ends on the first line with the
  parenthesis that closes level 1, followed at once by the colon; no finding when a comma
  stands at level 1 of the content, and none when a token of the content ends on a later
  line.
\<close>

lemma paren_findings:
  "(check_redundant_parenthesis logical_line tokens = Inr fs \<longrightarrow> length fs \<le> 1)
   \<and> (paren_statement ind keyword lp
        \<and> tokens = ind @ [keyword, lp] @ inner @ [rp, colon] @ rest
        \<and> inner \<noteq> [] \<and> inner_level 1 inner = Some 1
        \<and> list_all (\<lambda>t. fst (tok_end t) \<le> fst (tok_start (hd tokens))) (lp # inner @ [rp])
        \<and> is_op '')'' rp \<and> is_op '':'' colon
       \<longrightarrow> check_redundant_parenthesis logical_line tokens
           = Inr [(tok_start lp, ''A111 redundant parenthesis for '' @ tok_string keyword
                                 @ '' statement'')])
   \<and> (paren_statement ind keyword lp
        \<and> tokens = ind @ [keyword, lp] @ inner @ [t] @ rest
        \<and> inner_level 1 inner = Some 1 \<and> is_op '','' t
       \<longrightarrow> check_redundant_parenthesis logical_line tokens = Inr [])
   \<and> (paren_statement ind keyword lp
        \<and> tokens = ind @ [keyword, lp] @ inner @ [t] @ rest
        \<and> inner_level 1 inner = Some l \<and> \<not> indent t
        \<and> fst (tok_end t) > fst (tok_start (hd tokens))
       \<longrightarrow> check_redundant_parenthesis logical_line tokens = Inr [])"
proof -
  have a: "check_redundant_parenthesis logical_line tokens = Inr fs \<Longrightarrow> length fs \<le> 1"
    by (cases tokens)
       (auto simp add: check_redundant_parenthesis_def simp del: paren_loop.simps
          dest: paren_loop_at_most_one)
  have c: "is_op '','' t \<Longrightarrow> \<not> indent t" by (simp add: is_op_def indent_def)
  from a c paren_A111 [of ind keyword lp tokens inner rp colon rest logical_line]
    paren_stops [of ind keyword lp tokens inner t rest 1 logical_line]
    paren_stops [of ind keyword lp tokens inner t rest l logical_line]
  show ?thesis by blast
qed

lemmas paren_defs = check_redundant_parenthesis_def if_x_def if_x_y_def if_x_and_y_def
  if_x_in_list_def tk_def
  is_op_def Let_def

text \<open>
  \<open>if (x):\<close> yields A111 at the parenthesis; \<open>if (x, y):\<close> and the condition that
  continues on the next line yield nothing.
\<close>

lemma paren_findings_examples:
  "check_redundant_parenthesis (''if (x):'' @ [CHR 0x0A]) if_x
     = Inr [((1, 3), ''A111 redundant parenthesis for if statement'')]
   \<and> check_redundant_parenthesis (''if (x, y):'' @ [CHR 0x0A]) if_x_y = Inr []
   \<and> check_redundant_parenthesis (''if (x and y):'' @ [CHR 0x0A]) if_x_and_y = Inr []
   \<and> paren_statement [] (hd if_x) (if_x ! 1)
   \<and> inner_level 1 [if_x ! 2] = Some 1
   \<and> paren_statement [] (hd if_x_y) (if_x_y ! 1)
   \<and> inner_level 1 [if_x_y ! 2] = Some 1 \<and> is_op '','' (if_x_y ! 3)
   \<and> paren_statement [] (hd if_x_and_y) (if_x_and_y ! 1)
   \<and> inner_level 1 [if_x_and_y ! 2, if_x_and_y ! 3] = Some 1
   \<and> fst (tok_end (if_x_and_y ! 4)) > fst (tok_start (hd if_x_and_y))"
proof -
  have a: "check_redundant_parenthesis (''if (x):'' @ [CHR 0x0A]) if_x
     = Inr [((1, 3), ''A111 redundant parenthesis for if statement'')]"
    by (simp add: paren_defs)
  have b: "check_redundant_parenthesis (''if (x, y):'' @ [CHR 0x0A]) if_x_y = Inr []"
    by (simp add: paren_defs)
  have c: "check_redundant_parenthesis (''if (x and y):'' @ [CHR 0x0A]) if_x_and_y = Inr []"
    by (simp add: paren_defs)
  have p: "paren_statement [] (hd if_x) (if_x ! 1)"
    by (simp add: paren_statement_def paren_defs)
  have i: "inner_level 1 [if_x ! 2] = Some 1"
    by (simp add: paren_defs indent_def)
  have q: "paren_statement [] (hd if_x_y) (if_x_y ! 1)"
    "inner_level 1 [if_x_y ! 2] = Some 1" "is_op '','' (if_x_y ! 3)"
    "paren_statement [] (hd if_x_and_y) (if_x_and_y ! 1)"
    "inner_level 1 [if_x_and_y ! 2, if_x_and_y ! 3] = Some 1"
    "fst (tok_end (if_x_and_y ! 4)) > fst (tok_start (hd if_x_and_y))"
    by (simp_all add: paren_statement_def paren_defs indent_def)
  from paren_findings [of "''if (x):'' @ [CHR 0x0A]" if_x
         "[((1, 3), ''A111 redundant parenthesis for if statement'')]" "[]" "hd if_x" "if_x ! 1"
         "[if_x ! 2]" "if_x ! 3" "if_x ! 4" "[if_x ! 5]" "if_x ! 3" 1]
    a b c p i q
  show ?thesis by blast
qed

text \<open>
  C8 fails on the code: the condition of \<open>if (x in [1, 2]):\<close> is fully parenthesized, not
  empty, on one line, not a tuple, and its outer parentheses close right before the colon,
  yet the check returns no finding.  The comma between the brackets is met while \<open>level\<close>
  is 1, because \<open>level\<close> counts parentheses only, and ends the loop on the branch the source
  comments as "expression is non-empty tuple".
\<close>

theorem redundant_parenthesis_list_literal:
  "check_redundant_parenthesis (''if (x in [1, 2]):'' @ [CHR 0x0A]) if_x_in_list = Inr []"
  by (simp add: paren_defs)

end
